theory Spec2Isabelle
  imports Main
begin

section \<open>Settings constraints (src/Access/SettingsConstraints.cpp)\<close>

subsection \<open>Values, errors and the collaborators of the constraint engine\<close>

text \<open>
  Modelled from the spec: the type \<open>Field\<close> is declared outside this file. The spec calls
  it a dynamically-typed scalar (numeric, string, ...) with an unset state; the code only
  tests \<open>isNull\<close>, compares two fields with \<open>==\<close> and hands fields to collaborators.
\<close>

datatype field = Null | UInt64 nat | Int64 int | String string

definition isNull :: "field \<Rightarrow> bool" where
  "isNull f = (f = Null)"

text \<open>
  The four error codes the file names, and \<open>OTHER_ERROR_CODE\<close> for every code that only a
  collaborator raises (a cast failure, a failed comparison, a name refused for another
  reason) or that was never set.
\<close>

datatype error_code =
    READONLY
  | QUERY_IS_PROHIBITED
  | SETTING_CONSTRAINT_VIOLATION
  | UNKNOWN_SETTING
  | OTHER_ERROR_CODE nat

datatype exception = Exception (e_message: string) (e_code: error_code)

text \<open>
  Modelled from the spec: \<open>Exception::addMessage\<close> is declared outside this file; the spec
  says the suggestions are appended to the failure message.
\<close>

definition addMessage :: "exception \<Rightarrow> string \<Rightarrow> exception" where
  "addMessage e arg = Exception (e_message e @ arg) (e_code e)"

datatype ReactionOnViolation = THROW_ON_VIOLATION | CLAMP_ON_VIOLATION

record SettingChange =
  change_name :: string
  change_value :: field

text \<open>
  \<open>struct Range\<close>, with the fields the file reads and writes. A range is forbidden when
  \<open>explain\<close> is not empty.
\<close>

record Range =
  is_const :: bool
  changeable_in_readonly :: bool
  min_value :: field
  max_value :: field
  explain :: string
  code :: error_code

text \<open>
  Modelled from the spec: the default-constructed \<open>Range\<close>, \<open>Range::allowed()\<close> and
  \<open>Range::forbidden(explain, code)\<close> are declared in the header, outside this file. The spec
  gives the unrestricted range as no bounds and not constant, and a forbidden range as one
  that carries a message and a reason code. \<open>constraints[k]\<close> value-initialises the entry
  of a missing key: both flags false, both bounds null, no explanation.
\<close>

definition Range_default :: Range where
  "Range_default =
     \<lparr>is_const = False, changeable_in_readonly = False, min_value = Null, max_value = Null,
      explain = [], code = OTHER_ERROR_CODE 0\<rparr>"

definition allowed :: Range where
  "allowed = Range_default"

definition forbidden :: "string \<Rightarrow> error_code \<Rightarrow> Range" where
  "forbidden ex c = Range_default\<lparr>explain := ex, code := c\<rparr>"

text \<open>
  The current settings snapshot, as far as the file reads it: \<open>tryGet\<close>, the \<open>readonly\<close>
  level (an unsigned setting, only compared with 1), \<open>allow_ddl\<close> and \<open>getHints\<close>.
\<close>

record Settings =
  tryGet :: "string \<Rightarrow> field option"
  readonly :: nat
  allow_ddl :: bool
  getHints :: "string \<Rightarrow> string list"

text \<open>
  The access control object. \<open>notAllowedException\<close> is the failure that
  \<open>checkSettingNameIsAllowed\<close> raises for a name.
\<close>

record AccessControl =
  isSettingNameAllowed :: "string \<Rightarrow> bool"
  notAllowedException :: "string \<Rightarrow> exception"
  doesSettingsConstraintsReplacePrevious :: bool

text \<open>
  Modelled from the spec: \<open>AccessControl::checkSettingNameIsAllowed\<close> is defined outside
  this file; the spec gives it as the asserting form of the allow-list test, which raises
  for a name that the allow-list refuses.
\<close>

definition checkSettingNameIsAllowed :: "AccessControl \<Rightarrow> string \<Rightarrow> exception + unit" where
  "checkSettingNameIsAllowed ac setting_name =
     (if isSettingNameAllowed ac setting_name then Inr ()
      else Inl (notAllowedException ac setting_name))"

text \<open>
  The functions the file calls and does not define: \<open>Settings::castValueUtil\<close>,
  \<open>applyVisitor(FieldVisitorAccurateLess{}, l, r)\<close>, \<open>applyVisitor(FieldVisitorToString(), x)\<close>
  and \<open>toString(hints)\<close>. The first two can raise.
\<close>

record External =
  castValueUtil :: "string \<Rightarrow> field \<Rightarrow> exception + field"
  FieldVisitorAccurateLess :: "field \<Rightarrow> field \<Rightarrow> exception + bool"
  FieldVisitorToString :: "field \<Rightarrow> string"
  hintsToString :: "string list \<Rightarrow> string"

text \<open>
  The constraint set: the access control it points to and the table \<open>constraints\<close>. The
  table is kept as the sequence of its entries in iteration order; a hash map holds each
  key once.
\<close>

record SettingsConstraints =
  access_control :: AccessControl
  constraints :: "(string \<times> Range) list"

subsection \<open>merge\<close>

text \<open>
  \<open>auto & constraint = constraints[k]\<close> followed by the assignments \<open>f\<close> to it: the entry
  of \<open>k\<close> is created from the default range when it is missing.
\<close>

fun subscript_update :: "string \<Rightarrow> (Range \<Rightarrow> Range) \<Rightarrow> (string \<times> Range) list \<Rightarrow> (string \<times> Range) list" where
  "subscript_update k f [] = [(k, f Range_default)]"
| "subscript_update k f ((k', r) # ps) =
     (if k' = k then (k', f r) # ps else (k', r) # subscript_update k f ps)"

text \<open>The range that \<open>constraints[k]\<close> denotes: the entry of \<open>k\<close>, or the default range.\<close>

definition entry_or_default :: "(string \<times> Range) list \<Rightarrow> string \<Rightarrow> Range" where
  "entry_or_default cs k = (case map_of cs k of None \<Rightarrow> Range_default | Some r \<Rightarrow> r)"

text \<open>The body of the loop of the refining branch, for one entry of the other table.\<close>

definition refine_constraint :: "Range \<Rightarrow> Range \<Rightarrow> Range" where
  "refine_constraint other_constraint constraint =
     (let c1 = (if \<not> isNull (min_value other_constraint)
                then constraint\<lparr>min_value := min_value other_constraint\<rparr> else constraint);
          c2 = (if \<not> isNull (max_value other_constraint)
                then c1\<lparr>max_value := max_value other_constraint\<rparr> else c1)
      in if is_const other_constraint then c2\<lparr>is_const := True\<rparr> else c2)"

fun merge_replace :: "(string \<times> Range) list \<Rightarrow> (string \<times> Range) list \<Rightarrow> (string \<times> Range) list" where
  "merge_replace [] cs = cs"
| "merge_replace ((other_name, other_constraint) # rest) cs =
     merge_replace rest (subscript_update other_name (\<lambda>_. other_constraint) cs)"

fun merge_refine :: "(string \<times> Range) list \<Rightarrow> (string \<times> Range) list \<Rightarrow> (string \<times> Range) list" where
  "merge_refine [] cs = cs"
| "merge_refine ((other_name, other_constraint) # rest) cs =
     merge_refine rest (subscript_update other_name (refine_constraint other_constraint) cs)"

definition merge :: "SettingsConstraints \<Rightarrow> SettingsConstraints \<Rightarrow> SettingsConstraints" where
  "merge this other =
     (if doesSettingsConstraintsReplacePrevious (access_control this)
      then this\<lparr>constraints := merge_replace (constraints other) (constraints this)\<rparr>
      else this\<lparr>constraints := merge_refine (constraints other) (constraints this)\<rparr>)"

subsection \<open>getRange\<close>

definition getRange :: "SettingsConstraints \<Rightarrow> Settings \<Rightarrow> string \<Rightarrow> Range" where
  "getRange this current_settings setting_name =
     (if \<not> allow_ddl current_settings \<and> setting_name = ''allow_ddl''
      then forbidden ''Cannot modify 'allow_ddl' setting when DDL queries are prohibited for the user''
             QUERY_IS_PROHIBITED
      else if readonly current_settings > 1 \<and> setting_name = ''readonly''
      then forbidden ''Cannot modify 'readonly' setting in readonly mode'' READONLY
      else
        (let it = map_of (constraints this) setting_name in
         if readonly current_settings = 1 then
           (case it of
              None \<Rightarrow> forbidden (''Cannot modify '' @ [CHR 0x27] @ setting_name @ [CHR 0x27] @ '' setting in readonly mode'') READONLY
            | Some r \<Rightarrow>
                if \<not> changeable_in_readonly r
                then forbidden (''Cannot modify '' @ [CHR 0x27] @ setting_name @ [CHR 0x27] @ '' setting in readonly mode'') READONLY
                else r)
         else
           (case it of None \<Rightarrow> allowed | Some r \<Rightarrow> r)))"

subsection \<open>Range::check\<close>

text \<open>
  The lambda \<open>less_or_cannot_compare\<close>: when throwing, the comparison's own failure leaves
  the function; when clamping, a failed comparison counts as true.
\<close>

definition less_or_cannot_compare :: "External \<Rightarrow> ReactionOnViolation \<Rightarrow> field \<Rightarrow> field \<Rightarrow> exception + bool" where
  "less_or_cannot_compare ext reaction left right =
     (if reaction = THROW_ON_VIOLATION then FieldVisitorAccurateLess ext left right
      else (case FieldVisitorAccurateLess ext left right of
              Inl e \<Rightarrow> Inr True
            | Inr b \<Rightarrow> Inr b))"

text \<open>
  The last test of \<open>Range::check\<close> (lines 248 to 260). It compares \<open>max_value\<close> with
  \<open>new_value\<close>, and \<open>change\<close> is the change as the test on the minimum left it.
\<close>

definition check_max :: "External \<Rightarrow> Range \<Rightarrow> SettingChange \<Rightarrow> field \<Rightarrow> ReactionOnViolation \<Rightarrow> exception + (bool \<times> SettingChange)" where
  "check_max ext r change new_value reaction =
     (if \<not> isNull (max_value r) then
        (case less_or_cannot_compare ext reaction (max_value r) new_value of
           Inl e \<Rightarrow> Inl e
         | Inr b \<Rightarrow>
             if b then
               (if reaction = THROW_ON_VIOLATION
                then Inl (Exception (''Setting '' @ change_name change @ '' shouldn't be greater than ''
                                       @ FieldVisitorToString ext (max_value r))
                            SETTING_CONSTRAINT_VIOLATION)
                else Inr (True, change\<lparr>change_value := max_value r\<rparr>))
             else Inr (True, change))
      else Inr (True, change))"

text \<open>The test on the minimum (lines 236 to 246), which goes on to the test on the maximum.\<close>

definition check_min :: "External \<Rightarrow> Range \<Rightarrow> SettingChange \<Rightarrow> field \<Rightarrow> ReactionOnViolation \<Rightarrow> exception + (bool \<times> SettingChange)" where
  "check_min ext r change new_value reaction =
     (if \<not> isNull (min_value r) then
        (case less_or_cannot_compare ext reaction new_value (min_value r) of
           Inl e \<Rightarrow> Inl e
         | Inr b \<Rightarrow>
             if b then
               (if reaction = THROW_ON_VIOLATION
                then Inl (Exception (''Setting '' @ change_name change @ '' shouldn't be less than ''
                                       @ FieldVisitorToString ext (min_value r))
                            SETTING_CONSTRAINT_VIOLATION)
                else check_max ext r (change\<lparr>change_value := min_value r\<rparr>) new_value reaction)
             else check_max ext r change new_value reaction)
      else check_max ext r change new_value reaction)"

text \<open>The test on inconsistent bounds (lines 228 to 234).\<close>

definition check_bounds :: "External \<Rightarrow> Range \<Rightarrow> SettingChange \<Rightarrow> field \<Rightarrow> ReactionOnViolation \<Rightarrow> exception + (bool \<times> SettingChange)" where
  "check_bounds ext r change new_value reaction =
     (if \<not> isNull (min_value r) \<and> \<not> isNull (max_value r) then
        (case less_or_cannot_compare ext reaction (max_value r) (min_value r) of
           Inl e \<Rightarrow> Inl e
         | Inr b \<Rightarrow>
             if b then
               (if reaction = THROW_ON_VIOLATION
                then Inl (Exception (''Setting '' @ change_name change @ '' should not be changed'')
                            SETTING_CONSTRAINT_VIOLATION)
                else Inr (False, change))
             else check_min ext r change new_value reaction)
      else check_min ext r change new_value reaction)"

text \<open>
  \<open>Range::check\<close>. The result is the exception raised, or the boolean returned together
  with the change as the function leaves it.
\<close>

definition Range_check :: "External \<Rightarrow> Range \<Rightarrow> SettingChange \<Rightarrow> field \<Rightarrow> ReactionOnViolation \<Rightarrow> exception + (bool \<times> SettingChange)" where
  "Range_check ext r change new_value reaction =
     (if explain r \<noteq> [] then
        (if reaction = THROW_ON_VIOLATION then Inl (Exception (explain r) (code r))
         else Inr (False, change))
      else if is_const r then
        (if reaction = THROW_ON_VIOLATION
         then Inl (Exception (''Setting '' @ change_name change @ '' should not be changed'')
                     SETTING_CONSTRAINT_VIOLATION)
         else Inr (False, change))
      else check_bounds ext r change new_value reaction)"

subsection \<open>checkImpl\<close>

text \<open>
  The lambda \<open>cast_value\<close>: the cast value together with the flag \<open>cannot_cast\<close>. When
  clamping, a failed cast gives the null field and the flag.
\<close>

definition cast_value :: "External \<Rightarrow> ReactionOnViolation \<Rightarrow> string \<Rightarrow> field \<Rightarrow> exception + (field \<times> bool)" where
  "cast_value ext reaction setting_name x =
     (if reaction = THROW_ON_VIOLATION then
        (case castValueUtil ext setting_name x of
           Inl e \<Rightarrow> Inl e
         | Inr v \<Rightarrow> Inr (v, False))
      else
        (case castValueUtil ext setting_name x of
           Inl e \<Rightarrow> Inr (Null, True)
         | Inr v \<Rightarrow> Inr (v, False)))"

text \<open>
  The test of the name (lines 149 to 168): the exception raised, or whether the function
  goes on.
\<close>

definition check_name :: "External \<Rightarrow> SettingsConstraints \<Rightarrow> Settings \<Rightarrow> string \<Rightarrow> ReactionOnViolation \<Rightarrow> exception + bool" where
  "check_name ext this current_settings setting_name reaction =
     (if reaction = THROW_ON_VIOLATION then
        (case checkSettingNameIsAllowed (access_control this) setting_name of
           Inl e \<Rightarrow>
             if e_code e = UNKNOWN_SETTING \<and> getHints current_settings setting_name \<noteq> []
             then Inl (addMessage e (''Maybe you meant ''
                         @ hintsToString ext (getHints current_settings setting_name)))
             else Inl e
         | Inr _ \<Rightarrow> Inr True)
      else if \<not> isSettingNameAllowed (access_control this) setting_name then Inr False
      else Inr True)"

definition checkImpl :: "External \<Rightarrow> SettingsConstraints \<Rightarrow> Settings \<Rightarrow> SettingChange \<Rightarrow> ReactionOnViolation \<Rightarrow> exception + (bool \<times> SettingChange)" where
  "checkImpl ext this current_settings change reaction =
     (let setting_name = change_name change in
      if setting_name = ''profile'' then Inr (True, change)
      else
        (case check_name ext this current_settings setting_name reaction of
           Inl e \<Rightarrow> Inl e
         | Inr False \<Rightarrow> Inr (False, change)
         | Inr True \<Rightarrow>
             (case tryGet current_settings setting_name of
                Some current_value \<Rightarrow>
                  if change_value change = current_value then Inr (False, change)
                  else
                    (case cast_value ext reaction setting_name (change_value change) of
                       Inl e \<Rightarrow> Inl e
                     | Inr (new_value, cannot_cast) \<Rightarrow>
                         if new_value = current_value \<or> cannot_cast then Inr (False, change)
                         else Range_check ext (getRange this current_settings setting_name)
                                change new_value reaction)
              | None \<Rightarrow>
                  (case cast_value ext reaction setting_name (change_value change) of
                     Inl e \<Rightarrow> Inl e
                   | Inr (new_value, cannot_cast) \<Rightarrow>
                       if cannot_cast then Inr (False, change)
                       else Range_check ext (getRange this current_settings setting_name)
                              change new_value reaction))))"

subsection \<open>check and clamp\<close>

text \<open>
  \<open>boost::range::remove_erase_if\<close> with a predicate that can raise and can rewrite the
  element it is given: the predicate runs on the elements in order, the first exception
  leaves the call, and the elements for which it returned true are erased.
\<close>

fun remove_erase_if :: "('a \<Rightarrow> exception + (bool \<times> 'a)) \<Rightarrow> 'a list \<Rightarrow> exception + 'a list" where
  "remove_erase_if p [] = Inr []"
| "remove_erase_if p (x # xs) =
     (case p x of
        Inl e \<Rightarrow> Inl e
      | Inr (erase, x') \<Rightarrow>
          (case remove_erase_if p xs of
             Inl e \<Rightarrow> Inl e
           | Inr ys \<Rightarrow> Inr (if erase then ys else x' # ys)))"

text \<open>The predicate of both filters: \<open>!checkImpl(current_settings, change, reaction)\<close>.\<close>

definition not_checkImpl :: "External \<Rightarrow> SettingsConstraints \<Rightarrow> Settings \<Rightarrow> ReactionOnViolation \<Rightarrow> SettingChange \<Rightarrow> exception + (bool \<times> SettingChange)" where
  "not_checkImpl ext this current_settings reaction change =
     (case checkImpl ext this current_settings change reaction of
        Inl e \<Rightarrow> Inl e
      | Inr (b, change') \<Rightarrow> Inr (\<not> b, change'))"

text \<open>\<open>check(current_settings, const SettingChange &)\<close>: returns nothing or raises.\<close>

definition check_change :: "External \<Rightarrow> SettingsConstraints \<Rightarrow> Settings \<Rightarrow> SettingChange \<Rightarrow> exception + unit" where
  "check_change ext this current_settings change =
     (case checkImpl ext this current_settings change THROW_ON_VIOLATION of
        Inl e \<Rightarrow> Inl e
      | Inr _ \<Rightarrow> Inr ())"

text \<open>\<open>check(current_settings, SettingsChanges &)\<close>, the filter in place.\<close>

definition check :: "External \<Rightarrow> SettingsConstraints \<Rightarrow> Settings \<Rightarrow> SettingChange list \<Rightarrow> exception + SettingChange list" where
  "check ext this current_settings changes =
     remove_erase_if (not_checkImpl ext this current_settings THROW_ON_VIOLATION) changes"

definition clamp :: "External \<Rightarrow> SettingsConstraints \<Rightarrow> Settings \<Rightarrow> SettingChange list \<Rightarrow> exception + SettingChange list" where
  "clamp ext this current_settings changes =
     remove_erase_if (not_checkImpl ext this current_settings CLAMP_ON_VIOLATION) changes"

text \<open>The change that a call of \<open>checkImpl\<close> keeps, if it keeps one.\<close>

fun kept_change :: "exception + (bool \<times> SettingChange) \<Rightarrow> SettingChange option" where
  "kept_change (Inr (True, c')) = Some c'"
| "kept_change _ = None"

subsection \<open>Concrete collaborators and inputs\<close>

text \<open>
  Modelled from the spec: the ordering function is defined outside this file. The spec
  gives it as a best-effort less-than that reports two values of incomparable types
  distinctly from true and false; here numbers compare by value, strings compare with
  strings, and every other pair fails.
\<close>

fun example_less :: "field \<Rightarrow> field \<Rightarrow> exception + bool" where
  "example_less (UInt64 a) (UInt64 b) = Inr (a < b)"
| "example_less (UInt64 a) (Int64 b) = Inr (int a < b)"
| "example_less (Int64 a) (UInt64 b) = Inr (a < int b)"
| "example_less (Int64 a) (Int64 b) = Inr (a < b)"
| "example_less (String a) (String b) = Inr (a \<noteq> b \<and> length a \<le> length b \<and> take (length a) b = a)"
| "example_less _ _ = Inl (Exception ''Cannot compare'' (OTHER_ERROR_CODE 1))"

text \<open>
  Modelled from the spec: the cast into a setting's canonical type is defined outside
  this file and fails with a casting error on a type mismatch. Here every setting is an
  unsigned number.
\<close>

fun example_cast :: "string \<Rightarrow> field \<Rightarrow> exception + field" where
  "example_cast setting_name (UInt64 n) = Inr (UInt64 n)"
| "example_cast setting_name (Int64 i) =
     (if 0 \<le> i then Inr (UInt64 (nat i))
      else Inl (Exception ''Cannot convert'' (OTHER_ERROR_CODE 2)))"
| "example_cast setting_name _ = Inl (Exception ''Cannot convert'' (OTHER_ERROR_CODE 2))"

fun example_toString :: "field \<Rightarrow> string" where
  "example_toString Null = ''NULL''"
| "example_toString (UInt64 n) = ''UInt64''"
| "example_toString (Int64 i) = ''Int64''"
| "example_toString (String s) = s"

definition example_ext :: External where
  "example_ext =
     \<lparr>castValueUtil = example_cast, FieldVisitorAccurateLess = example_less,
      FieldVisitorToString = example_toString, hintsToString = concat\<rparr>"

definition example_access :: AccessControl where
  "example_access =
     \<lparr>isSettingNameAllowed =
        (\<lambda>n. n = ''max_threads'' \<or> n = ''max_memory_usage'' \<or> n = ''readonly''
              \<or> n = ''allow_ddl'' \<or> n = ''profile''),
      notAllowedException = (\<lambda>n. Exception (''Unknown setting '' @ n) UNKNOWN_SETTING),
      doesSettingsConstraintsReplacePrevious = False\<rparr>"

text \<open>The range of the spec's test: \<open>min = 5\<close>, \<open>max = 10\<close>.\<close>

definition range_5_10 :: Range where
  "range_5_10 = Range_default\<lparr>min_value := UInt64 5, max_value := UInt64 10\<rparr>"

definition example_constraints :: SettingsConstraints where
  "example_constraints =
     \<lparr>access_control = example_access,
      constraints =
        [(''max_threads'', range_5_10),
         (''max_memory_usage'', Range_default\<lparr>is_const := True\<rparr>),
         (''profile'', Range_default\<lparr>is_const := True\<rparr>)]\<rparr>"

definition example_settings :: Settings where
  "example_settings =
     \<lparr>tryGet = map_of [(''max_threads'', UInt64 10), (''max_memory_usage'', UInt64 0),
                       (''profile'', String ''default'')],
      readonly = 0, allow_ddl = True, getHints = (\<lambda>_. [])\<rparr>"

text \<open>A second constraint set, to be merged into the first.\<close>

definition example_other :: SettingsConstraints where
  "example_other =
     \<lparr>access_control = example_access,
      constraints =
        [(''max_threads'', Range_default\<lparr>max_value := UInt64 8, changeable_in_readonly := True\<rparr>),
         (''max_memory_usage'', Range_default),
         (''max_block_size'', Range_default\<lparr>min_value := UInt64 1, changeable_in_readonly := True\<rparr>)]\<rparr>"

section \<open>Properties\<close>

subsection \<open>Helper facts\<close>

lemma forbidden_simps:
  "explain (forbidden ex c) = ex" "code (forbidden ex c) = c"
  "is_const (forbidden ex c) = False" "min_value (forbidden ex c) = Null"
  "max_value (forbidden ex c) = Null" "changeable_in_readonly (forbidden ex c) = False"
  by (simp_all add: forbidden_def Range_default_def)

lemma allowed_simps:
  "explain allowed = []" "is_const allowed = False" "min_value allowed = Null"
  "max_value allowed = Null" "changeable_in_readonly allowed = False"
  by (simp_all add: allowed_def Range_default_def)

lemma less_or_cannot_compare_throw [simp]:
  "less_or_cannot_compare ext THROW_ON_VIOLATION l r = FieldVisitorAccurateLess ext l r"
  by (simp add: less_or_cannot_compare_def)

lemma less_or_cannot_compare_clamp:
  "less_or_cannot_compare ext CLAMP_ON_VIOLATION l r =
     (case FieldVisitorAccurateLess ext l r of Inl e \<Rightarrow> Inr True | Inr b \<Rightarrow> Inr b)"
  by (simp add: less_or_cannot_compare_def)

lemma less_or_cannot_compare_clamp_Inr:
  "\<exists>b. less_or_cannot_compare ext CLAMP_ON_VIOLATION l r = Inr b"
  by (cases "FieldVisitorAccurateLess ext l r") (auto simp add: less_or_cannot_compare_clamp)

lemma map_of_subscript_update:
  "map_of (subscript_update k f cs) = (map_of cs)(k \<mapsto> f (entry_or_default cs k))"
  by (induction cs) (auto simp add: fun_eq_iff entry_or_default_def)

lemma refine_constraint_fields:
  "min_value (refine_constraint oc c) = (if \<not> isNull (min_value oc) then min_value oc else min_value c)"
  "max_value (refine_constraint oc c) = (if \<not> isNull (max_value oc) then max_value oc else max_value c)"
  "is_const (refine_constraint oc c) = (is_const c \<or> is_const oc)"
  "changeable_in_readonly (refine_constraint oc c) = changeable_in_readonly c"
  "explain (refine_constraint oc c) = explain c"
  "code (refine_constraint oc c) = code c"
  by (simp_all add: refine_constraint_def Let_def)

lemma map_of_merge_refine:
  "distinct (map fst other) \<Longrightarrow>
   map_of (merge_refine other cs) k =
     (case map_of other k of
        None \<Rightarrow> map_of cs k
      | Some oc \<Rightarrow> Some (refine_constraint oc (entry_or_default cs k)))"
proof (induction other arbitrary: cs)
  case Nil
  then show ?case by simp
next
  case (Cons p rest)
  obtain n oc where p: "p = (n, oc)" by (cases p)
  from Cons.prems p have fresh: "map_of rest n = None" and d: "distinct (map fst rest)"
    by (auto simp add: map_of_eq_None_iff)
  show ?case
  proof (cases "k = n")
    case True
    with fresh p Cons.IH [OF d] show ?thesis
      by (simp add: map_of_subscript_update)
  next
    case False
    with p Cons.IH [OF d] show ?thesis
      by (auto simp add: map_of_subscript_update entry_or_default_def split: option.split)
  qed
qed

lemma merge_refine_keeps_const:
  "map_of cs k = Some c \<Longrightarrow> is_const c \<Longrightarrow>
   \<exists>r. map_of (merge_refine other cs) k = Some r \<and> is_const r"
proof (induction other arbitrary: cs c)
  case Nil
  then show ?case by simp
next
  case (Cons p rest)
  obtain n oc where p: "p = (n, oc)" by (cases p)
  have "\<exists>c'. map_of (subscript_update n (refine_constraint oc) cs) k = Some c' \<and> is_const c'"
    using Cons.prems
    by (auto simp add: map_of_subscript_update entry_or_default_def refine_constraint_fields)
  then obtain c' where "map_of (subscript_update n (refine_constraint oc) cs) k = Some c'"
    and "is_const c'" by blast
  from Cons.IH [OF this] p show ?case by simp
qed

lemma merge_refine_flag:
  "map_option changeable_in_readonly (map_of (merge_refine other cs) k) =
     (case map_of cs k of
        Some c \<Rightarrow> Some (changeable_in_readonly c)
      | None \<Rightarrow> if k \<in> fst ` set other then Some False else None)"
proof (induction other arbitrary: cs)
  case Nil
  then show ?case by (simp split: option.split)
next
  case (Cons p rest)
  obtain n oc where p: "p = (n, oc)" by (cases p)
  show ?case
    using p Cons.IH [of "subscript_update n (refine_constraint oc) cs"]
    by (auto simp add: map_of_subscript_update entry_or_default_def refine_constraint_fields
          Range_default_def split: option.splits)
qed

lemma access_control_merge [simp]: "access_control (merge this other) = access_control this"
  by (simp add: merge_def)

lemma foldl_merge_keeps_const:
  "\<not> doesSettingsConstraintsReplacePrevious (access_control this) \<Longrightarrow>
   map_of (constraints this) k = Some c \<Longrightarrow> is_const c \<Longrightarrow>
   \<exists>r. map_of (constraints (foldl merge this others)) k = Some r \<and> is_const r"
proof (induction others arbitrary: this c)
  case Nil
  then show ?case by simp
next
  case (Cons other rest)
  from Cons.prems merge_refine_keeps_const [of "constraints this" k c "constraints other"]
  obtain c' where "map_of (constraints (merge this other)) k = Some c'" and "is_const c'"
    by (auto simp add: merge_def)
  with Cons.IH [of "merge this other" c'] Cons.prems(1) show ?case by simp
qed

lemma cast_value_clamp:
  "cast_value ext CLAMP_ON_VIOLATION n x =
     Inr (case castValueUtil ext n x of Inl e \<Rightarrow> (Null, True) | Inr v \<Rightarrow> (v, False))"
  by (simp add: cast_value_def split: sum.split)

lemma cast_value_throw:
  "cast_value ext THROW_ON_VIOLATION n x =
     (case castValueUtil ext n x of Inl e \<Rightarrow> Inl e | Inr v \<Rightarrow> Inr (v, False))"
  by (simp add: cast_value_def)

lemma check_name_clamp:
  "check_name ext this s n CLAMP_ON_VIOLATION = Inr (isSettingNameAllowed (access_control this) n)"
  by (simp add: check_name_def)

lemma check_name_throw_allowed:
  "isSettingNameAllowed (access_control this) n \<Longrightarrow>
   check_name ext this s n THROW_ON_VIOLATION = Inr True"
  by (simp add: check_name_def checkSettingNameIsAllowed_def)

lemma check_name_throw_refused:
  "\<not> isSettingNameAllowed (access_control this) n \<Longrightarrow>
   check_name ext this s n THROW_ON_VIOLATION =
     Inl (if e_code (notAllowedException (access_control this) n) = UNKNOWN_SETTING
             \<and> getHints s n \<noteq> []
          then addMessage (notAllowedException (access_control this) n)
                 (''Maybe you meant '' @ hintsToString ext (getHints s n))
          else notAllowedException (access_control this) n)"
  by (simp add: check_name_def checkSettingNameIsAllowed_def)

lemma check_max_clamp_cases:
  "check_max ext r c nv CLAMP_ON_VIOLATION = Inr (True, c)
   \<or> (\<not> isNull (max_value r)
       \<and> check_max ext r c nv CLAMP_ON_VIOLATION = Inr (True, c\<lparr>change_value := max_value r\<rparr>))"
  by (cases "FieldVisitorAccurateLess ext (max_value r) nv")
     (auto simp add: check_max_def less_or_cannot_compare_clamp)

lemma Range_check_clamp_cases:
  "Range_check ext r c nv CLAMP_ON_VIOLATION = Inr (False, c)
   \<or> Range_check ext r c nv CLAMP_ON_VIOLATION = Inr (True, c)
   \<or> (\<not> isNull (min_value r)
       \<and> Range_check ext r c nv CLAMP_ON_VIOLATION = Inr (True, c\<lparr>change_value := min_value r\<rparr>))
   \<or> (\<not> isNull (max_value r)
       \<and> Range_check ext r c nv CLAMP_ON_VIOLATION = Inr (True, c\<lparr>change_value := max_value r\<rparr>))"
  using check_max_clamp_cases [of ext r c nv]
    check_max_clamp_cases [of ext r "c\<lparr>change_value := min_value r\<rparr>" nv]
  by (cases "FieldVisitorAccurateLess ext (max_value r) (min_value r)";
      cases "FieldVisitorAccurateLess ext nv (min_value r)")
     (auto simp add: Range_check_def check_bounds_def check_min_def less_or_cannot_compare_clamp)

lemma Range_check_clamp_drop:
  "explain r \<noteq> [] \<or> is_const r \<Longrightarrow> Range_check ext r c nv CLAMP_ON_VIOLATION = Inr (False, c)"
  by (auto simp add: Range_check_def)

lemma checkImpl_profile:
  "change_name c = ''profile'' \<Longrightarrow> checkImpl ext this s c reaction = Inr (True, c)"
  by (simp add: checkImpl_def)

lemma checkImpl_clamp:
  "checkImpl ext this s c CLAMP_ON_VIOLATION =
     (if change_name c = ''profile'' then Inr (True, c)
      else if \<not> isSettingNameAllowed (access_control this) (change_name c) then Inr (False, c)
      else
        (case castValueUtil ext (change_name c) (change_value c) of
           Inl e \<Rightarrow> Inr (False, c)
         | Inr nv \<Rightarrow>
             if tryGet s (change_name c) = Some (change_value c) \<or> tryGet s (change_name c) = Some nv
             then Inr (False, c)
             else Range_check ext (getRange this s (change_name c)) c nv CLAMP_ON_VIOLATION))"
  by (auto simp add: checkImpl_def Let_def check_name_clamp cast_value_clamp
        split: option.split sum.split)

lemma checkImpl_throw:
  "checkImpl ext this s c THROW_ON_VIOLATION =
     (if change_name c = ''profile'' then Inr (True, c)
      else if \<not> isSettingNameAllowed (access_control this) (change_name c)
      then Inl (if e_code (notAllowedException (access_control this) (change_name c)) = UNKNOWN_SETTING
                   \<and> getHints s (change_name c) \<noteq> []
                then addMessage (notAllowedException (access_control this) (change_name c))
                       (''Maybe you meant '' @ hintsToString ext (getHints s (change_name c)))
                else notAllowedException (access_control this) (change_name c))
      else if tryGet s (change_name c) = Some (change_value c) then Inr (False, c)
      else
        (case castValueUtil ext (change_name c) (change_value c) of
           Inl e \<Rightarrow> Inl e
         | Inr nv \<Rightarrow>
             if tryGet s (change_name c) = Some nv then Inr (False, c)
             else Range_check ext (getRange this s (change_name c)) c nv THROW_ON_VIOLATION))"
  by (auto simp add: checkImpl_def Let_def check_name_throw_allowed check_name_throw_refused
        cast_value_throw split: option.split sum.split)

lemma checkImpl_clamp_cases:
  "checkImpl ext this s c CLAMP_ON_VIOLATION = Inr (False, c)
   \<or> checkImpl ext this s c CLAMP_ON_VIOLATION = Inr (True, c)
   \<or> (\<not> isNull (min_value (getRange this s (change_name c)))
       \<and> checkImpl ext this s c CLAMP_ON_VIOLATION =
          Inr (True, c\<lparr>change_value := min_value (getRange this s (change_name c))\<rparr>))
   \<or> (\<not> isNull (max_value (getRange this s (change_name c)))
       \<and> checkImpl ext this s c CLAMP_ON_VIOLATION =
          Inr (True, c\<lparr>change_value := max_value (getRange this s (change_name c))\<rparr>))"
proof (cases "castValueUtil ext (change_name c) (change_value c)")
  case (Inl e)
  then show ?thesis by (simp add: checkImpl_clamp)
next
  case (Inr v)
  with Range_check_clamp_cases [of ext "getRange this s (change_name c)" c v]
  show ?thesis by (auto simp add: checkImpl_clamp)
qed

lemma checkImpl_clamp_dropped:
  assumes "change_name c \<noteq> ''profile''"
    and "\<not> isSettingNameAllowed (access_control this) (change_name c)
         \<or> (\<exists>e. castValueUtil ext (change_name c) (change_value c) = Inl e)
         \<or> explain (getRange this s (change_name c)) \<noteq> []
         \<or> is_const (getRange this s (change_name c))"
  shows "checkImpl ext this s c CLAMP_ON_VIOLATION = Inr (False, c)"
  using assms
  by (cases "castValueUtil ext (change_name c) (change_value c)")
     (auto simp add: checkImpl_clamp Range_check_clamp_drop)

lemma getRange_of_entry:
  "map_of (constraints this) n = Some r \<Longrightarrow>
   getRange this s n = r \<or> explain (getRange this s n) \<noteq> []"
  by (auto simp add: getRange_def Let_def forbidden_simps)

lemma remove_erase_if_erased:
  "p c = Inr (True, c') \<Longrightarrow> remove_erase_if p (xs @ c # ys) = remove_erase_if p (xs @ ys)"
  by (induction xs) (simp_all split: sum.split prod.split)



lemma not_checkImpl_clamp:
  "not_checkImpl ext this s CLAMP_ON_VIOLATION c =
     (case kept_change (checkImpl ext this s c CLAMP_ON_VIOLATION) of
        None \<Rightarrow> Inr (True, c)
      | Some c' \<Rightarrow> Inr (False, c'))"
  using checkImpl_clamp_cases [of ext this s c]
  by (auto simp add: not_checkImpl_def)

lemma clamp_map_filter:
  "clamp ext this s changes =
     Inr (List.map_filter (\<lambda>c. kept_change (checkImpl ext this s c CLAMP_ON_VIOLATION)) changes)"
proof (induction changes)
  case Nil
  then show ?case by (simp add: clamp_def List.map_filter_simps)
next
  case (Cons c cs)
  then show ?case
    by (simp add: clamp_def List.map_filter_simps not_checkImpl_clamp split: option.split)
qed

lemma check_max_throw_unchanged:
  "check_max ext r c nv THROW_ON_VIOLATION = Inr (b, c') \<Longrightarrow> b \<and> c' = c"
  by (auto simp add: check_max_def split: if_splits sum.splits)

lemma Range_check_throw_unchanged:
  "Range_check ext r c nv THROW_ON_VIOLATION = Inr (b, c') \<Longrightarrow> b \<and> c' = c"
  by (auto simp add: Range_check_def check_bounds_def check_min_def
        dest: check_max_throw_unchanged split: if_splits sum.splits)

lemma checkImpl_throw_unchanged:
  "checkImpl ext this s c THROW_ON_VIOLATION = Inr (b, c') \<Longrightarrow> c' = c"
  by (auto simp add: checkImpl_throw dest: Range_check_throw_unchanged
        split: if_splits sum.splits)

lemma check_Inr_iff:
  "check ext this s changes = Inr ys \<longleftrightarrow>
     (\<forall>c \<in> set changes. \<exists>b. checkImpl ext this s c THROW_ON_VIOLATION = Inr (b, c))
     \<and> ys = filter (\<lambda>c. checkImpl ext this s c THROW_ON_VIOLATION = Inr (True, c)) changes"
proof (induction changes arbitrary: ys)
  case Nil
  then show ?case by (auto simp add: check_def)
next
  case (Cons c cs)
  show ?case
  proof (cases "checkImpl ext this s c THROW_ON_VIOLATION")
    case (Inl e)
    then show ?thesis by (auto simp add: check_def not_checkImpl_def)
  next
    case (Inr res)
    obtain b c' where res: "res = (b, c')" by (cases res)
    with Inr checkImpl_throw_unchanged [of ext this s c b c'] have c': "c' = c" by simp
    show ?thesis
    proof (cases "check ext this s cs")
      case (Inl e)
      with Cons.IH have "\<not> (\<forall>c \<in> set cs. \<exists>b. checkImpl ext this s c THROW_ON_VIOLATION = Inr (b, c))"
        by auto
      with Inl Inr res c' show ?thesis
        by (auto simp add: check_def not_checkImpl_def)
    next
      case zs: (Inr zs)
      with Cons.IH [of zs] Inr res c' show ?thesis
        by (auto simp add: check_def not_checkImpl_def)
    qed
  qed
qed

lemma check_accepted_again:
  assumes "check ext this s changes = Inr ys"
  shows "check ext this s ys = Inr ys"
proof -
  let ?P = "\<lambda>c. checkImpl ext this s c THROW_ON_VIOLATION = Inr (True, c)"
  from assms have ys: "ys = filter ?P changes" by (simp add: check_Inr_iff)
  then have "\<forall>c \<in> set ys. ?P c" by simp
  then have "(\<forall>c \<in> set ys. \<exists>b. checkImpl ext this s c THROW_ON_VIOLATION = Inr (b, c))"
    and "filter ?P ys = ys" by (auto simp add: filter_id_conv)
  then show ?thesis by (simp add: check_Inr_iff)
qed

lemma check_max_clamp_fired:
  "check_max ext r c nv CLAMP_ON_VIOLATION =
     Inr (True, if \<not> isNull (max_value r)
                   \<and> less_or_cannot_compare ext CLAMP_ON_VIOLATION (max_value r) nv = Inr True
                then c\<lparr>change_value := max_value r\<rparr> else c)"
  by (cases "FieldVisitorAccurateLess ext (max_value r) nv")
     (auto simp add: check_max_def less_or_cannot_compare_clamp)

lemma check_min_clamp_fired:
  "check_min ext r c nv CLAMP_ON_VIOLATION =
     Inr (True,
       if \<not> isNull (max_value r)
          \<and> less_or_cannot_compare ext CLAMP_ON_VIOLATION (max_value r) nv = Inr True
       then c\<lparr>change_value := max_value r\<rparr>
       else if \<not> isNull (min_value r)
          \<and> less_or_cannot_compare ext CLAMP_ON_VIOLATION nv (min_value r) = Inr True
       then c\<lparr>change_value := min_value r\<rparr>
       else c)"
  by (cases "FieldVisitorAccurateLess ext nv (min_value r)")
     (auto simp add: check_min_def check_max_clamp_fired less_or_cannot_compare_clamp)

lemma Range_check_clamp_kept:
  "Range_check ext r c nv CLAMP_ON_VIOLATION = Inr (True, c') \<longleftrightarrow>
     explain r = [] \<and> \<not> is_const r
     \<and> (isNull (min_value r) \<or> isNull (max_value r)
        \<or> less_or_cannot_compare ext CLAMP_ON_VIOLATION (max_value r) (min_value r) = Inr False)
     \<and> c' = (if \<not> isNull (max_value r)
                 \<and> less_or_cannot_compare ext CLAMP_ON_VIOLATION (max_value r) nv = Inr True
              then c\<lparr>change_value := max_value r\<rparr>
              else if \<not> isNull (min_value r)
                 \<and> less_or_cannot_compare ext CLAMP_ON_VIOLATION nv (min_value r) = Inr True
              then c\<lparr>change_value := min_value r\<rparr>
              else c)"
proof -
  obtain b where b: "less_or_cannot_compare ext CLAMP_ON_VIOLATION (max_value r) (min_value r) = Inr b"
    using less_or_cannot_compare_clamp_Inr [of ext "max_value r" "min_value r"] by blast
  show ?thesis
    by (cases b) (auto simp add: b Range_check_def check_bounds_def check_min_clamp_fired)
qed

lemma Range_check_clamp_stable:
  assumes "Range_check ext r c nv CLAMP_ON_VIOLATION = Inr (True, c')" and "c' \<noteq> c"
  shows "Range_check ext r c' (change_value c') CLAMP_ON_VIOLATION = Inr (True, c')"
  using assms
  by (auto simp add: Range_check_clamp_kept split: if_splits)

lemma checkImpl_clamp_stable:
  assumes kept: "checkImpl ext this s c CLAMP_ON_VIOLATION = Inr (True, c')"
    and rewritten: "c' \<noteq> c \<longrightarrow>
           tryGet s (change_name c) \<noteq> Some (change_value c')
         \<and> castValueUtil ext (change_name c) (change_value c') = Inr (change_value c')"
  shows "checkImpl ext this s c' CLAMP_ON_VIOLATION = Inr (True, c')"
proof (cases "c' = c")
  case True
  with kept show ?thesis by simp
next
  case False
  from kept False obtain nv where
    range: "Range_check ext (getRange this s (change_name c)) c nv CLAMP_ON_VIOLATION = Inr (True, c')"
    and name: "change_name c \<noteq> ''profile''"
    and ok: "isSettingNameAllowed (access_control this) (change_name c)"
    by (auto simp add: checkImpl_clamp split: if_splits sum.splits)
  from range have same_name: "change_name c' = change_name c"
    by (auto simp add: Range_check_clamp_kept split: if_splits)
  from Range_check_clamp_stable [OF range False] rewritten False name ok same_name
  show ?thesis by (simp add: checkImpl_clamp)
qed

lemma clamp_fixed:
  "\<forall>c \<in> set ys. checkImpl ext this s c CLAMP_ON_VIOLATION = Inr (True, c) \<Longrightarrow>
   clamp ext this s ys = Inr ys"
  by (induction ys) (simp_all add: clamp_def not_checkImpl_def)

lemma set_map_filter: "set (List.map_filter f xs) = {y. \<exists>x \<in> set xs. f x = Some y}"
  by (induction xs) (auto split: option.splits)

lemma kept_change_Some: "kept_change res = Some c' \<longleftrightarrow> res = Inr (True, c')"
  by (cases res rule: kept_change.cases) auto

lemma Range_check_clamp:
  "Range_check ext r c nv CLAMP_ON_VIOLATION =
     (if explain r \<noteq> [] \<or> is_const r
         \<or> (\<not> isNull (min_value r) \<and> \<not> isNull (max_value r)
             \<and> less_or_cannot_compare ext CLAMP_ON_VIOLATION (max_value r) (min_value r) = Inr True)
      then Inr (False, c)
      else Inr (True,
             if \<not> isNull (max_value r)
                \<and> less_or_cannot_compare ext CLAMP_ON_VIOLATION (max_value r) nv = Inr True
             then c\<lparr>change_value := max_value r\<rparr>
             else if \<not> isNull (min_value r)
                \<and> less_or_cannot_compare ext CLAMP_ON_VIOLATION nv (min_value r) = Inr True
             then c\<lparr>change_value := min_value r\<rparr>
             else c))"
proof -
  obtain b where b: "less_or_cannot_compare ext CLAMP_ON_VIOLATION (max_value r) (min_value r) = Inr b"
    using less_or_cannot_compare_clamp_Inr [of ext "max_value r" "min_value r"] by blast
  show ?thesis
    by (cases b) (simp_all add: b Range_check_def check_bounds_def check_min_clamp_fired)
qed

lemma checkImpl_clamp_outcome:
  assumes "change_name c \<noteq> ''profile''"
    and "isSettingNameAllowed (access_control this) (change_name c)"
    and "castValueUtil ext (change_name c) (change_value c) = Inr nv"
  shows "checkImpl ext this s c CLAMP_ON_VIOLATION =
     (if tryGet s (change_name c) = Some (change_value c) \<or> tryGet s (change_name c) = Some nv
         \<or> explain (getRange this s (change_name c)) \<noteq> []
         \<or> is_const (getRange this s (change_name c))
         \<or> (\<not> isNull (min_value (getRange this s (change_name c)))
             \<and> \<not> isNull (max_value (getRange this s (change_name c)))
             \<and> less_or_cannot_compare ext CLAMP_ON_VIOLATION
                  (max_value (getRange this s (change_name c)))
                  (min_value (getRange this s (change_name c))) = Inr True)
      then Inr (False, c)
      else Inr (True,
             if \<not> isNull (max_value (getRange this s (change_name c)))
                \<and> less_or_cannot_compare ext CLAMP_ON_VIOLATION
                     (max_value (getRange this s (change_name c))) nv = Inr True
             then c\<lparr>change_value := max_value (getRange this s (change_name c))\<rparr>
             else if \<not> isNull (min_value (getRange this s (change_name c)))
                \<and> less_or_cannot_compare ext CLAMP_ON_VIOLATION
                     nv (min_value (getRange this s (change_name c))) = Inr True
             then c\<lparr>change_value := min_value (getRange this s (change_name c))\<rparr>
             else c))"
  using assms by (simp add: checkImpl_clamp Range_check_clamp)

lemma checkImpl_clamp_tied:
  "checkImpl ext this s c CLAMP_ON_VIOLATION = Inr (False, c)
   \<or> checkImpl ext this s c CLAMP_ON_VIOLATION = Inr (True, c)
   \<or> (\<exists>nv. castValueUtil ext (change_name c) (change_value c) = Inr nv
          \<and> \<not> isNull (min_value (getRange this s (change_name c)))
          \<and> less_or_cannot_compare ext CLAMP_ON_VIOLATION
               nv (min_value (getRange this s (change_name c))) = Inr True
          \<and> checkImpl ext this s c CLAMP_ON_VIOLATION =
               Inr (True, c\<lparr>change_value := min_value (getRange this s (change_name c))\<rparr>))
   \<or> (\<exists>nv. castValueUtil ext (change_name c) (change_value c) = Inr nv
          \<and> \<not> isNull (max_value (getRange this s (change_name c)))
          \<and> less_or_cannot_compare ext CLAMP_ON_VIOLATION
               (max_value (getRange this s (change_name c))) nv = Inr True
          \<and> checkImpl ext this s c CLAMP_ON_VIOLATION =
               Inr (True, c\<lparr>change_value := max_value (getRange this s (change_name c))\<rparr>))"
proof (cases "change_name c = ''profile''")
  case True
  then show ?thesis by (simp add: checkImpl_profile)
next
  case name: False
  show ?thesis
  proof (cases "isSettingNameAllowed (access_control this) (change_name c)")
    case False
    with name show ?thesis by (simp add: checkImpl_clamp)
  next
    case ok: True
    show ?thesis
    proof (cases "castValueUtil ext (change_name c) (change_value c)")
      case (Inl e)
      with name ok show ?thesis by (simp add: checkImpl_clamp)
    next
      case (Inr nv)
      from checkImpl_clamp_outcome [OF name ok Inr, of s] Inr show ?thesis
        by (auto split: if_splits)
    qed
  qed
qed

lemma less_or_cannot_compare_clamp_patched:
  "FieldVisitorAccurateLess ext l r = Inl e \<Longrightarrow>
   less_or_cannot_compare
     (ext\<lparr>FieldVisitorAccurateLess :=
            (\<lambda>left right. if left = l \<and> right = r then Inr True
                           else FieldVisitorAccurateLess ext left right)\<rparr>)
     CLAMP_ON_VIOLATION a b
   = less_or_cannot_compare ext CLAMP_ON_VIOLATION a b"
  by (simp add: less_or_cannot_compare_clamp)

lemmas example_defs =
  example_ext_def example_access_def example_constraints_def example_settings_def
  range_5_10_def Range_default_def

lemmas checkImpl_defs =
  checkImpl_def check_name_def checkSettingNameIsAllowed_def cast_value_def getRange_def
  Range_check_def check_bounds_def check_min_def check_max_def less_or_cannot_compare_def
  allowed_def forbidden_def isNull_def Let_def

subsection \<open>getRange\<close>

text \<open>
  C2: \<open>getRange\<close> answers a forbidden range for \<open>allow_ddl\<close> when the snapshot has
  \<open>allow_ddl\<close> false, and for \<open>readonly\<close> when the readonly level is above 1, whatever
  the table holds. Otherwise, at readonly level 1 a missing entry or an entry whose
  \<open>changeable_in_readonly\<close> is false gives a forbidden range and an entry with the flag set
  is returned as stored; at readonly level 0 or 2 a missing entry gives the unrestricted
  range and a present entry is returned as stored. A forbidden range carries its message
  and code; the unrestricted range has no bounds, is not constant and is not forbidden.
\<close>

theorem getRange_resolution:
  "(\<not> allow_ddl s \<longrightarrow>
      getRange this s ''allow_ddl'' =
        forbidden ''Cannot modify 'allow_ddl' setting when DDL queries are prohibited for the user''
          QUERY_IS_PROHIBITED)
   \<and> (1 < readonly s \<longrightarrow>
      getRange this s ''readonly'' =
        forbidden ''Cannot modify 'readonly' setting in readonly mode'' READONLY)
   \<and> (\<not> (\<not> allow_ddl s \<and> n = ''allow_ddl'') \<and> \<not> (1 < readonly s \<and> n = ''readonly'') \<longrightarrow>
        (readonly s = 1 \<longrightarrow>
           (map_of (constraints this) n = None \<longrightarrow>
              getRange this s n =
                forbidden (''Cannot modify '' @ [CHR 0x27] @ n @ [CHR 0x27] @ '' setting in readonly mode'')
                  READONLY)
         \<and> (\<forall>r. map_of (constraints this) n = Some r \<and> \<not> changeable_in_readonly r \<longrightarrow>
              getRange this s n =
                forbidden (''Cannot modify '' @ [CHR 0x27] @ n @ [CHR 0x27] @ '' setting in readonly mode'')
                  READONLY)
         \<and> (\<forall>r. map_of (constraints this) n = Some r \<and> changeable_in_readonly r \<longrightarrow>
              getRange this s n = r))
      \<and> (readonly s = 0 \<or> readonly s = 2 \<longrightarrow>
           (map_of (constraints this) n = None \<longrightarrow> getRange this s n = allowed)
         \<and> (\<forall>r. map_of (constraints this) n = Some r \<longrightarrow> getRange this s n = r)))
   \<and> (\<forall>ex c. ex \<noteq> [] \<longrightarrow> explain (forbidden ex c) \<noteq> [] \<and> code (forbidden ex c) = c)
   \<and> isNull (min_value allowed) \<and> isNull (max_value allowed) \<and> \<not> is_const allowed
   \<and> explain allowed = []"
  by (auto simp add: getRange_def forbidden_simps allowed_simps isNull_def)

theorem getRange_resolution_witness:
  "getRange example_constraints (example_settings\<lparr>allow_ddl := False\<rparr>) ''allow_ddl'' =
     forbidden ''Cannot modify 'allow_ddl' setting when DDL queries are prohibited for the user''
       QUERY_IS_PROHIBITED
   \<and> getRange example_constraints (example_settings\<lparr>readonly := 2\<rparr>) ''readonly'' =
       forbidden ''Cannot modify 'readonly' setting in readonly mode'' READONLY
   \<and> getRange example_constraints (example_settings\<lparr>readonly := 1\<rparr>) ''max_threads'' =
       forbidden ''Cannot modify 'max_threads' setting in readonly mode'' READONLY
   \<and> getRange example_constraints (example_settings\<lparr>readonly := 1\<rparr>) ''max_block_size'' =
       forbidden ''Cannot modify 'max_block_size' setting in readonly mode'' READONLY
   \<and> getRange
        (example_constraints\<lparr>constraints :=
           [(''max_threads'', range_5_10\<lparr>changeable_in_readonly := True\<rparr>)]\<rparr>)
        (example_settings\<lparr>readonly := 1\<rparr>) ''max_threads'' =
       range_5_10\<lparr>changeable_in_readonly := True\<rparr>
   \<and> getRange example_constraints (example_settings\<lparr>readonly := 2\<rparr>) ''max_threads'' = range_5_10
   \<and> getRange example_constraints example_settings ''max_block_size'' = allowed"
  using
    getRange_resolution [where s = "example_settings\<lparr>allow_ddl := False\<rparr>"
      and this = example_constraints and n = "''allow_ddl''"]
    getRange_resolution [where s = "example_settings\<lparr>readonly := 2\<rparr>"
      and this = example_constraints and n = "''max_threads''"]
    getRange_resolution [where s = "example_settings\<lparr>readonly := 1\<rparr>"
      and this = example_constraints and n = "''max_threads''"]
    getRange_resolution [where s = "example_settings\<lparr>readonly := 1\<rparr>"
      and this = example_constraints and n = "''max_block_size''"]
    getRange_resolution [where s = "example_settings\<lparr>readonly := 1\<rparr>"
      and this = "example_constraints\<lparr>constraints :=
           [(''max_threads'', range_5_10\<lparr>changeable_in_readonly := True\<rparr>)]\<rparr>"
      and n = "''max_threads''"]
    getRange_resolution [where s = example_settings
      and this = example_constraints and n = "''max_block_size''"]
  by (simp add: example_settings_def example_constraints_def range_5_10_def Range_default_def)

subsection \<open>Range::check\<close>

text \<open>
  C1, as amended: \<open>Range::check\<close> tests forbidden, then \<open>is_const\<close>, then inconsistent
  bounds, and the first of these that fires decides the call (an exception when throwing,
  a drop when clamping). With none of them firing, a \<open>new_value\<close> that orders below
  \<open>min_value\<close> raises the below-minimum violation when throwing; when clamping it rewrites
  the value of the change to \<open>min_value\<close> and keeps the change, and the test on the maximum
  still runs on \<open>new_value\<close>: if that fires too, the value ends as \<open>max_value\<close>. A
  \<open>new_value\<close> that is not below the minimum and that \<open>max_value\<close> orders below raises the
  above-maximum violation when throwing and is rewritten to \<open>max_value\<close> and kept when
  clamping. A value that neither test rejects is accepted unchanged. Every comparison is
  the one of \<open>less_or_cannot_compare\<close> for the reaction at hand, so that when clamping a
  failed comparison orders below.
\<close>

theorem Range_check_order:
  "(explain r \<noteq> [] \<longrightarrow>
      Range_check ext r change new_value reaction =
        (if reaction = THROW_ON_VIOLATION then Inl (Exception (explain r) (code r))
         else Inr (False, change)))
 \<and> (explain r = [] \<and> is_const r \<longrightarrow>
      Range_check ext r change new_value reaction =
        (if reaction = THROW_ON_VIOLATION
         then Inl (Exception (''Setting '' @ change_name change @ '' should not be changed'')
                     SETTING_CONSTRAINT_VIOLATION)
         else Inr (False, change)))
 \<and> (explain r = [] \<and> \<not> is_const r \<and> \<not> isNull (min_value r) \<and> \<not> isNull (max_value r)
      \<and> less_or_cannot_compare ext reaction (max_value r) (min_value r) = Inr True \<longrightarrow>
      Range_check ext r change new_value reaction =
        (if reaction = THROW_ON_VIOLATION
         then Inl (Exception (''Setting '' @ change_name change @ '' should not be changed'')
                     SETTING_CONSTRAINT_VIOLATION)
         else Inr (False, change)))
 \<and> (explain r = [] \<and> \<not> is_const r
      \<and> (isNull (min_value r) \<or> isNull (max_value r)
          \<or> less_or_cannot_compare ext reaction (max_value r) (min_value r) = Inr False) \<longrightarrow>
      (\<not> isNull (min_value r)
        \<and> less_or_cannot_compare ext reaction new_value (min_value r) = Inr True \<longrightarrow>
          Range_check ext r change new_value reaction =
            (if reaction = THROW_ON_VIOLATION
             then Inl (Exception (''Setting '' @ change_name change @ '' shouldn't be less than ''
                                    @ FieldVisitorToString ext (min_value r))
                         SETTING_CONSTRAINT_VIOLATION)
             else Inr (True, change\<lparr>change_value :=
                     (if \<not> isNull (max_value r)
                         \<and> less_or_cannot_compare ext reaction (max_value r) new_value = Inr True
                      then max_value r else min_value r)\<rparr>)))
    \<and> ((isNull (min_value r)
          \<or> less_or_cannot_compare ext reaction new_value (min_value r) = Inr False)
        \<and> \<not> isNull (max_value r)
        \<and> less_or_cannot_compare ext reaction (max_value r) new_value = Inr True \<longrightarrow>
          Range_check ext r change new_value reaction =
            (if reaction = THROW_ON_VIOLATION
             then Inl (Exception (''Setting '' @ change_name change @ '' shouldn't be greater than ''
                                    @ FieldVisitorToString ext (max_value r))
                         SETTING_CONSTRAINT_VIOLATION)
             else Inr (True, change\<lparr>change_value := max_value r\<rparr>)))
    \<and> ((isNull (min_value r)
          \<or> less_or_cannot_compare ext reaction new_value (min_value r) = Inr False)
        \<and> (isNull (max_value r)
          \<or> less_or_cannot_compare ext reaction (max_value r) new_value = Inr False) \<longrightarrow>
          Range_check ext r change new_value reaction = Inr (True, change)))"
  by (cases reaction)
     (auto simp add: Range_check_def check_bounds_def check_min_def check_max_def
        less_or_cannot_compare_clamp split: sum.splits)

theorem Range_check_order_witness:
  "Range_check example_ext range_5_10
      \<lparr>change_name = ''max_threads'', change_value = UInt64 2\<rparr> (UInt64 2) THROW_ON_VIOLATION
     = Inl (Exception ''Setting max_threads shouldn't be less than UInt64'' SETTING_CONSTRAINT_VIOLATION)
   \<and> Range_check example_ext range_5_10
      \<lparr>change_name = ''max_threads'', change_value = UInt64 2\<rparr> (UInt64 2) CLAMP_ON_VIOLATION
     = Inr (True, \<lparr>change_name = ''max_threads'', change_value = UInt64 5\<rparr>)
   \<and> Range_check example_ext range_5_10
      \<lparr>change_name = ''max_threads'', change_value = UInt64 20\<rparr> (UInt64 20) THROW_ON_VIOLATION
     = Inl (Exception ''Setting max_threads shouldn't be greater than UInt64'' SETTING_CONSTRAINT_VIOLATION)
   \<and> Range_check example_ext range_5_10
      \<lparr>change_name = ''max_threads'', change_value = UInt64 20\<rparr> (UInt64 20) CLAMP_ON_VIOLATION
     = Inr (True, \<lparr>change_name = ''max_threads'', change_value = UInt64 10\<rparr>)
   \<and> Range_check example_ext range_5_10
      \<lparr>change_name = ''max_threads'', change_value = UInt64 7\<rparr> (UInt64 7) CLAMP_ON_VIOLATION
     = Inr (True, \<lparr>change_name = ''max_threads'', change_value = UInt64 7\<rparr>)
   \<and> Range_check example_ext range_5_10
      \<lparr>change_name = ''max_threads'', change_value = String ''abc''\<rparr> (String ''abc'')
      CLAMP_ON_VIOLATION
     = Inr (True, \<lparr>change_name = ''max_threads'', change_value = UInt64 10\<rparr>)
   \<and> Range_check example_ext (range_5_10\<lparr>is_const := True\<rparr>)
      \<lparr>change_name = ''max_threads'', change_value = UInt64 7\<rparr> (UInt64 7) CLAMP_ON_VIOLATION
     = Inr (False, \<lparr>change_name = ''max_threads'', change_value = UInt64 7\<rparr>)
   \<and> Range_check example_ext (forbidden ''Cannot modify'' READONLY)
      \<lparr>change_name = ''max_threads'', change_value = UInt64 7\<rparr> (UInt64 7) THROW_ON_VIOLATION
     = Inl (Exception ''Cannot modify'' READONLY)
   \<and> Range_check example_ext (range_5_10\<lparr>min_value := UInt64 11\<rparr>)
      \<lparr>change_name = ''max_threads'', change_value = UInt64 7\<rparr> (UInt64 7) THROW_ON_VIOLATION
     = Inl (Exception ''Setting max_threads should not be changed'' SETTING_CONSTRAINT_VIOLATION)"
  using
    Range_check_order [where ext = example_ext and r = range_5_10 and new_value = "UInt64 2"
      and change = "\<lparr>change_name = ''max_threads'', change_value = UInt64 2\<rparr>"
      and reaction = THROW_ON_VIOLATION]
    Range_check_order [where ext = example_ext and r = range_5_10 and new_value = "UInt64 2"
      and change = "\<lparr>change_name = ''max_threads'', change_value = UInt64 2\<rparr>"
      and reaction = CLAMP_ON_VIOLATION]
    Range_check_order [where ext = example_ext and r = range_5_10 and new_value = "UInt64 20"
      and change = "\<lparr>change_name = ''max_threads'', change_value = UInt64 20\<rparr>"
      and reaction = THROW_ON_VIOLATION]
    Range_check_order [where ext = example_ext and r = range_5_10 and new_value = "UInt64 20"
      and change = "\<lparr>change_name = ''max_threads'', change_value = UInt64 20\<rparr>"
      and reaction = CLAMP_ON_VIOLATION]
    Range_check_order [where ext = example_ext and r = range_5_10 and new_value = "UInt64 7"
      and change = "\<lparr>change_name = ''max_threads'', change_value = UInt64 7\<rparr>"
      and reaction = CLAMP_ON_VIOLATION]
    Range_check_order [where ext = example_ext and r = range_5_10 and new_value = "String ''abc''"
      and change = "\<lparr>change_name = ''max_threads'', change_value = String ''abc''\<rparr>"
      and reaction = CLAMP_ON_VIOLATION]
    Range_check_order [where ext = example_ext and r = "range_5_10\<lparr>is_const := True\<rparr>"
      and new_value = "UInt64 7"
      and change = "\<lparr>change_name = ''max_threads'', change_value = UInt64 7\<rparr>"
      and reaction = CLAMP_ON_VIOLATION]
    Range_check_order [where ext = example_ext and r = "forbidden ''Cannot modify'' READONLY"
      and new_value = "UInt64 7"
      and change = "\<lparr>change_name = ''max_threads'', change_value = UInt64 7\<rparr>"
      and reaction = THROW_ON_VIOLATION]
    Range_check_order [where ext = example_ext and r = "range_5_10\<lparr>min_value := UInt64 11\<rparr>"
      and new_value = "UInt64 7"
      and change = "\<lparr>change_name = ''max_threads'', change_value = UInt64 7\<rparr>"
      and reaction = THROW_ON_VIOLATION]
  by (simp add: example_ext_def range_5_10_def Range_default_def forbidden_def isNull_def
        less_or_cannot_compare_clamp)

text \<open>
  The claim C1 as written fails: with bounds 5 and 10 and a string as the new value, the
  comparison with the minimum fails and counts as true when clamping, the comparison with
  the maximum does the same, and the change ends with the value 10, not 5.
\<close>

theorem Range_check_first_match_counterexample:
  "less_or_cannot_compare example_ext CLAMP_ON_VIOLATION (String ''abc'') (min_value range_5_10) = Inr True
   \<and> Range_check example_ext range_5_10
        \<lparr>change_name = ''max_threads'', change_value = String ''abc''\<rparr> (String ''abc'')
        CLAMP_ON_VIOLATION
      = Inr (True, \<lparr>change_name = ''max_threads'', change_value = max_value range_5_10\<rparr>)
   \<and> max_value range_5_10 \<noteq> min_value range_5_10"
  by (simp add: Range_check_def check_bounds_def check_min_def check_max_def
        less_or_cannot_compare_clamp example_ext_def range_5_10_def Range_default_def isNull_def)

text \<open>
  C7: a range with both bounds set whose \<open>max_value\<close> orders below its \<open>min_value\<close> is
  checked exactly as the same range marked constant: the change is dropped when clamping,
  without any rewrite, and an exception is raised when throwing, which is the constraint
  violation of a constant setting unless the range is a forbidden one.
\<close>

theorem inconsistent_bounds_like_const:
  assumes "\<not> isNull (min_value r)" and "\<not> isNull (max_value r)"
    and "FieldVisitorAccurateLess ext (max_value r) (min_value r) = Inr True"
  shows "Range_check ext r change new_value reaction
           = Range_check ext (r\<lparr>is_const := True\<rparr>) change new_value reaction
       \<and> Range_check ext r change new_value CLAMP_ON_VIOLATION = Inr (False, change)
       \<and> (\<exists>e. Range_check ext r change new_value THROW_ON_VIOLATION = Inl e)
       \<and> (explain r = [] \<longrightarrow>
            Range_check ext r change new_value THROW_ON_VIOLATION =
              Inl (Exception (''Setting '' @ change_name change @ '' should not be changed'')
                     SETTING_CONSTRAINT_VIOLATION))"
  using assms
  by (cases reaction)
     (auto simp add: Range_check_def check_bounds_def less_or_cannot_compare_clamp)

theorem inconsistent_bounds_like_const_witness:
  "Range_check example_ext (range_5_10\<lparr>min_value := UInt64 11\<rparr>)
      \<lparr>change_name = ''max_threads'', change_value = UInt64 7\<rparr> (UInt64 7) THROW_ON_VIOLATION
     = Range_check example_ext (range_5_10\<lparr>min_value := UInt64 11, is_const := True\<rparr>)
         \<lparr>change_name = ''max_threads'', change_value = UInt64 7\<rparr> (UInt64 7) THROW_ON_VIOLATION
   \<and> Range_check example_ext (range_5_10\<lparr>min_value := UInt64 11\<rparr>)
      \<lparr>change_name = ''max_threads'', change_value = UInt64 7\<rparr> (UInt64 7) CLAMP_ON_VIOLATION
     = Inr (False, \<lparr>change_name = ''max_threads'', change_value = UInt64 7\<rparr>)
   \<and> Range_check example_ext (range_5_10\<lparr>min_value := UInt64 11\<rparr>)
      \<lparr>change_name = ''max_threads'', change_value = UInt64 7\<rparr> (UInt64 7) THROW_ON_VIOLATION
     = Inl (Exception ''Setting max_threads should not be changed'' SETTING_CONSTRAINT_VIOLATION)"
  using inconsistent_bounds_like_const [where ext = example_ext
      and r = "range_5_10\<lparr>min_value := UInt64 11\<rparr>" and new_value = "UInt64 7"
      and change = "\<lparr>change_name = ''max_threads'', change_value = UInt64 7\<rparr>"
      and reaction = THROW_ON_VIOLATION]
  by (auto simp add: example_ext_def range_5_10_def Range_default_def isNull_def)

text \<open>
  C8, as amended: when clamping, a comparison of \<open>Range::check\<close> that fails counts as
  true: the check gives what it gives with a comparison that answers true there, so the
  change is clamped or dropped as if the bound were violated. When throwing, the failure
  of the comparison itself leaves \<open>Range::check\<close>: the bound violation is not raised in
  its place.
\<close>

theorem incomparable_policy:
  "(FieldVisitorAccurateLess ext l r' = Inl e \<longrightarrow>
      less_or_cannot_compare ext CLAMP_ON_VIOLATION l r' = Inr True
    \<and> less_or_cannot_compare ext THROW_ON_VIOLATION l r' = Inl e
    \<and> Range_check ext r change new_value CLAMP_ON_VIOLATION =
        Range_check
          (ext\<lparr>FieldVisitorAccurateLess :=
                 (\<lambda>left right. if left = l \<and> right = r' then Inr True
                                else FieldVisitorAccurateLess ext left right)\<rparr>)
          r change new_value CLAMP_ON_VIOLATION)
 \<and> Range_check ext r change new_value CLAMP_ON_VIOLATION =
     Range_check
       (ext\<lparr>FieldVisitorAccurateLess :=
              (\<lambda>left right. case FieldVisitorAccurateLess ext left right of
                               Inl e \<Rightarrow> Inr True | Inr b \<Rightarrow> Inr b)\<rparr>)
       r change new_value CLAMP_ON_VIOLATION
 \<and> (explain r = [] \<and> \<not> is_const r \<longrightarrow>
      (\<not> isNull (min_value r) \<and> \<not> isNull (max_value r)
        \<and> FieldVisitorAccurateLess ext (max_value r) (min_value r) = Inl e \<longrightarrow>
          Range_check ext r change new_value CLAMP_ON_VIOLATION = Inr (False, change)
        \<and> Range_check ext r change new_value THROW_ON_VIOLATION = Inl e)
    \<and> ((isNull (min_value r) \<or> isNull (max_value r)
          \<or> FieldVisitorAccurateLess ext (max_value r) (min_value r) = Inr False)
        \<and> \<not> isNull (min_value r)
        \<and> FieldVisitorAccurateLess ext new_value (min_value r) = Inl e \<longrightarrow>
          Range_check ext r change new_value CLAMP_ON_VIOLATION =
            Inr (True, change\<lparr>change_value :=
                   (if \<not> isNull (max_value r)
                       \<and> less_or_cannot_compare ext CLAMP_ON_VIOLATION (max_value r) new_value = Inr True
                    then max_value r else min_value r)\<rparr>)
        \<and> Range_check ext r change new_value THROW_ON_VIOLATION = Inl e)
    \<and> ((isNull (min_value r) \<or> isNull (max_value r)
          \<or> FieldVisitorAccurateLess ext (max_value r) (min_value r) = Inr False)
        \<and> (isNull (min_value r) \<or> FieldVisitorAccurateLess ext new_value (min_value r) = Inr False)
        \<and> \<not> isNull (max_value r)
        \<and> FieldVisitorAccurateLess ext (max_value r) new_value = Inl e \<longrightarrow>
          Range_check ext r change new_value CLAMP_ON_VIOLATION =
            Inr (True, change\<lparr>change_value := max_value r\<rparr>)
        \<and> Range_check ext r change new_value THROW_ON_VIOLATION = Inl e))"
  (is "?single \<and> ?all \<and> ?cases")
proof -
  have single: ?single
  proof (intro impI conjI)
    assume fails: "FieldVisitorAccurateLess ext l r' = Inl e"
    then show "less_or_cannot_compare ext CLAMP_ON_VIOLATION l r' = Inr True"
      by (simp add: less_or_cannot_compare_clamp)
    from fails show "less_or_cannot_compare ext THROW_ON_VIOLATION l r' = Inl e"
      by simp
    from fails show "Range_check ext r change new_value CLAMP_ON_VIOLATION =
        Range_check
          (ext\<lparr>FieldVisitorAccurateLess :=
                 (\<lambda>left right. if left = l \<and> right = r' then Inr True
                                else FieldVisitorAccurateLess ext left right)\<rparr>)
          r change new_value CLAMP_ON_VIOLATION"
      by (simp add: Range_check_clamp less_or_cannot_compare_clamp_patched)
  qed
  have "?all \<and> ?cases"
    by (auto simp add: Range_check_def check_bounds_def check_min_def check_max_def
          less_or_cannot_compare_def split: sum.splits)
  with single show ?thesis by blast
qed

theorem incomparable_policy_witness:
  "Range_check example_ext range_5_10
      \<lparr>change_name = ''max_threads'', change_value = String ''abc''\<rparr> (String ''abc'')
      THROW_ON_VIOLATION
     = Inl (Exception ''Cannot compare'' (OTHER_ERROR_CODE 1))
   \<and> Range_check example_ext range_5_10
      \<lparr>change_name = ''max_threads'', change_value = String ''abc''\<rparr> (String ''abc'')
      CLAMP_ON_VIOLATION
     = Inr (True, \<lparr>change_name = ''max_threads'', change_value = UInt64 10\<rparr>)
   \<and> Range_check example_ext range_5_10
      \<lparr>change_name = ''max_threads'', change_value = String ''abc''\<rparr> (String ''abc'')
      CLAMP_ON_VIOLATION
     = Range_check
         (example_ext\<lparr>FieldVisitorAccurateLess :=
            (\<lambda>left right. if left = String ''abc'' \<and> right = UInt64 5 then Inr True
                           else FieldVisitorAccurateLess example_ext left right)\<rparr>)
         range_5_10
         \<lparr>change_name = ''max_threads'', change_value = String ''abc''\<rparr> (String ''abc'')
         CLAMP_ON_VIOLATION
   \<and> Range_check example_ext (range_5_10\<lparr>max_value := Null\<rparr>)
      \<lparr>change_name = ''max_threads'', change_value = String ''abc''\<rparr> (String ''abc'')
      CLAMP_ON_VIOLATION
     = Inr (True, \<lparr>change_name = ''max_threads'', change_value = UInt64 5\<rparr>)
   \<and> Range_check example_ext (range_5_10\<lparr>min_value := Null\<rparr>)
      \<lparr>change_name = ''max_threads'', change_value = String ''abc''\<rparr> (String ''abc'')
      CLAMP_ON_VIOLATION
     = Inr (True, \<lparr>change_name = ''max_threads'', change_value = UInt64 10\<rparr>)
   \<and> Range_check example_ext range_5_10
      \<lparr>change_name = ''max_threads'', change_value = Int64 7\<rparr> (String ''abc'')
      CLAMP_ON_VIOLATION
     = Inr (True, \<lparr>change_name = ''max_threads'', change_value = UInt64 10\<rparr>)
   \<and> Range_check example_ext (range_5_10\<lparr>min_value := String ''a''\<rparr>)
      \<lparr>change_name = ''max_threads'', change_value = UInt64 7\<rparr> (UInt64 7)
      CLAMP_ON_VIOLATION
     = Inr (False, \<lparr>change_name = ''max_threads'', change_value = UInt64 7\<rparr>)"
proof -
  let ?c = "\<lparr>change_name = ''max_threads'', change_value = String ''abc''\<rparr>"
  let ?e = "Exception ''Cannot compare'' (OTHER_ERROR_CODE 1)"
  have fails: "FieldVisitorAccurateLess example_ext (String ''abc'') (UInt64 5) = Inl ?e"
    by (simp add: example_ext_def)
  from incomparable_policy [where ext = example_ext and r = range_5_10
      and new_value = "String ''abc''" and change = ?c and e = ?e
      and l = "String ''abc''" and r' = "UInt64 5", THEN conjunct1] fails
  have as_if: "Range_check example_ext range_5_10 ?c (String ''abc'') CLAMP_ON_VIOLATION
     = Range_check
         (example_ext\<lparr>FieldVisitorAccurateLess :=
            (\<lambda>left right. if left = String ''abc'' \<and> right = UInt64 5 then Inr True
                           else FieldVisitorAccurateLess example_ext left right)\<rparr>)
         range_5_10 ?c (String ''abc'') CLAMP_ON_VIOLATION"
    by blast
  have rest: "Range_check example_ext range_5_10 ?c (String ''abc'') THROW_ON_VIOLATION = Inl ?e
   \<and> Range_check example_ext range_5_10 ?c (String ''abc'') CLAMP_ON_VIOLATION
     = Inr (True, \<lparr>change_name = ''max_threads'', change_value = UInt64 10\<rparr>)
   \<and> Range_check example_ext (range_5_10\<lparr>max_value := Null\<rparr>) ?c (String ''abc'')
        CLAMP_ON_VIOLATION
     = Inr (True, \<lparr>change_name = ''max_threads'', change_value = UInt64 5\<rparr>)
   \<and> Range_check example_ext (range_5_10\<lparr>min_value := Null\<rparr>) ?c (String ''abc'')
        CLAMP_ON_VIOLATION
     = Inr (True, \<lparr>change_name = ''max_threads'', change_value = UInt64 10\<rparr>)
   \<and> Range_check example_ext range_5_10
      \<lparr>change_name = ''max_threads'', change_value = Int64 7\<rparr> (String ''abc'')
      CLAMP_ON_VIOLATION
     = Inr (True, \<lparr>change_name = ''max_threads'', change_value = UInt64 10\<rparr>)
   \<and> Range_check example_ext (range_5_10\<lparr>min_value := String ''a''\<rparr>)
      \<lparr>change_name = ''max_threads'', change_value = UInt64 7\<rparr> (UInt64 7)
      CLAMP_ON_VIOLATION
     = Inr (False, \<lparr>change_name = ''max_threads'', change_value = UInt64 7\<rparr>)"
    using
      incomparable_policy [where ext = example_ext and r = range_5_10
        and new_value = "String ''abc''" and change = ?c and e = ?e,
        THEN conjunct2, THEN conjunct2]
      incomparable_policy [where ext = example_ext and r = "range_5_10\<lparr>max_value := Null\<rparr>"
        and new_value = "String ''abc''" and change = ?c and e = ?e,
        THEN conjunct2, THEN conjunct2]
      incomparable_policy [where ext = example_ext and r = "range_5_10\<lparr>min_value := Null\<rparr>"
        and new_value = "String ''abc''" and change = ?c and e = ?e,
        THEN conjunct2, THEN conjunct2]
      incomparable_policy [where ext = example_ext and r = range_5_10
        and new_value = "String ''abc''"
        and change = "\<lparr>change_name = ''max_threads'', change_value = Int64 7\<rparr>" and e = ?e,
        THEN conjunct2, THEN conjunct2]
      incomparable_policy [where ext = example_ext
        and r = "range_5_10\<lparr>min_value := String ''a''\<rparr>"
        and new_value = "UInt64 7"
        and change = "\<lparr>change_name = ''max_threads'', change_value = UInt64 7\<rparr>"
        and e = ?e, THEN conjunct2, THEN conjunct2]
    by (simp add: example_ext_def range_5_10_def Range_default_def isNull_def
          less_or_cannot_compare_clamp)
  from as_if rest show ?thesis by blast
qed

text \<open>
  The claim C8 as written fails when throwing: with the minimum 5 and a string as the new
  value the comparison fails, and the exception that leaves \<open>Range::check\<close> is the
  comparison's own, not the below-minimum violation.
\<close>

theorem incomparable_throw_counterexample:
  "FieldVisitorAccurateLess example_ext (String ''abc'') (min_value range_5_10)
     = Inl (Exception ''Cannot compare'' (OTHER_ERROR_CODE 1))
   \<and> Range_check example_ext range_5_10
        \<lparr>change_name = ''max_threads'', change_value = String ''abc''\<rparr> (String ''abc'')
        THROW_ON_VIOLATION
      = Inl (Exception ''Cannot compare'' (OTHER_ERROR_CODE 1))
   \<and> Range_check example_ext range_5_10
        \<lparr>change_name = ''max_threads'', change_value = String ''abc''\<rparr> (String ''abc'')
        THROW_ON_VIOLATION
      \<noteq> Inl (Exception (''Setting '' @ ''max_threads'' @ '' shouldn't be less than ''
                         @ FieldVisitorToString example_ext (min_value range_5_10))
               SETTING_CONSTRAINT_VIOLATION)"
  by (simp add: Range_check_def check_bounds_def check_min_def check_max_def
        example_ext_def range_5_10_def Range_default_def isNull_def)

subsection \<open>merge\<close>

text \<open>
  C5: when the access control does not ask for replacement, \<open>merge\<close> works field by field.
  For each entry of the other table, a \<open>min_value\<close> or \<open>max_value\<close> that is set overwrites
  the field of this table's entry and one that is null leaves it, and \<open>is_const\<close> becomes
  the disjunction of the two flags; a name the other table does not hold keeps its entry.
  An entry that is constant stays constant through every sequence of further merges.
\<close>

theorem merge_refine_per_field:
  assumes "\<not> doesSettingsConstraintsReplacePrevious (access_control this)"
    and "distinct (map fst (constraints other))"
  shows "(\<forall>oc. map_of (constraints other) k = Some oc \<longrightarrow>
            (\<exists>r. map_of (constraints (merge this other)) k = Some r
               \<and> min_value r = (if \<not> isNull (min_value oc) then min_value oc
                                else min_value (entry_or_default (constraints this) k))
               \<and> max_value r = (if \<not> isNull (max_value oc) then max_value oc
                                else max_value (entry_or_default (constraints this) k))
               \<and> is_const r = (is_const (entry_or_default (constraints this) k) \<or> is_const oc)))
       \<and> (map_of (constraints other) k = None \<longrightarrow>
            map_of (constraints (merge this other)) k = map_of (constraints this) k)
       \<and> (\<forall>c. map_of (constraints this) k = Some c \<and> is_const c \<longrightarrow>
            (\<forall>others. \<exists>r. map_of (constraints (foldl merge this others)) k = Some r \<and> is_const r))"
  using assms foldl_merge_keeps_const [of this k]
  by (auto simp add: merge_def map_of_merge_refine refine_constraint_fields)

theorem merge_refine_per_field_witness:
  "(\<exists>r. map_of (constraints (merge example_constraints example_other)) ''max_threads'' = Some r
        \<and> min_value r = UInt64 5 \<and> max_value r = UInt64 8 \<and> \<not> is_const r)
   \<and> map_of (constraints (merge example_constraints example_other)) ''profile''
       = Some (Range_default\<lparr>is_const := True\<rparr>)
   \<and> (\<exists>r. map_of (constraints
               (foldl merge example_constraints [example_other, example_constraints, example_other]))
             ''max_memory_usage'' = Some r \<and> is_const r)"
proof -
  have refine: "\<not> doesSettingsConstraintsReplacePrevious (access_control example_constraints)"
    by (simp add: example_constraints_def example_access_def)
  have keys: "distinct (map fst (constraints example_other))"
    by (simp add: example_other_def)
  note per_field = merge_refine_per_field [OF refine keys]
  have "map_of (constraints example_other) ''max_threads''
          = Some (Range_default\<lparr>max_value := UInt64 8, changeable_in_readonly := True\<rparr>)"
    by (simp add: example_other_def)
  with per_field [where k = "''max_threads''"]
  have first: "\<exists>r. map_of (constraints (merge example_constraints example_other)) ''max_threads'' = Some r
        \<and> min_value r = UInt64 5 \<and> max_value r = UInt64 8 \<and> \<not> is_const r"
    by (simp add: example_constraints_def range_5_10_def Range_default_def entry_or_default_def
          isNull_def)
  have "map_of (constraints example_other) ''profile'' = None"
    by (simp add: example_other_def)
  with per_field [where k = "''profile''"]
  have second: "map_of (constraints (merge example_constraints example_other)) ''profile''
       = Some (Range_default\<lparr>is_const := True\<rparr>)"
    by (simp add: example_constraints_def)
  have "map_of (constraints example_constraints) ''max_memory_usage''
          = Some (Range_default\<lparr>is_const := True\<rparr>)
        \<and> is_const (Range_default\<lparr>is_const := True\<rparr>)"
    by (simp add: example_constraints_def)
  with per_field [where k = "''max_memory_usage''"]
  have third: "\<exists>r. map_of (constraints
               (foldl merge example_constraints [example_other, example_constraints, example_other]))
             ''max_memory_usage'' = Some r \<and> is_const r"
    by blast
  from first second third show ?thesis by blast
qed

text \<open>
  C10: when the access control does not ask for replacement, \<open>merge\<close> leaves
  \<open>changeable_in_readonly\<close> alone: an entry this table already holds keeps its flag, and
  an entry that the merge creates has the flag false, whatever the other table's flag is.
  No entry appears for a name that neither table holds.
\<close>

theorem merge_refine_changeable_in_readonly:
  assumes "\<not> doesSettingsConstraintsReplacePrevious (access_control this)"
  shows "(\<forall>c. map_of (constraints this) k = Some c \<longrightarrow>
            (\<exists>r. map_of (constraints (merge this other)) k = Some r
               \<and> changeable_in_readonly r = changeable_in_readonly c))
       \<and> (map_of (constraints this) k = None \<and> k \<in> fst ` set (constraints other) \<longrightarrow>
            (\<exists>r. map_of (constraints (merge this other)) k = Some r
               \<and> changeable_in_readonly r = False))
       \<and> (map_of (constraints this) k = None \<and> k \<notin> fst ` set (constraints other) \<longrightarrow>
            map_of (constraints (merge this other)) k = None)"
  using assms merge_refine_flag [of "constraints other" "constraints this" k]
  by (cases "map_of (merge_refine (constraints other) (constraints this)) k")
     (force simp add: merge_def split: option.splits if_splits)+

theorem merge_refine_changeable_in_readonly_witness:
  "(\<exists>r. map_of (constraints (merge example_constraints example_other)) ''max_threads'' = Some r
        \<and> changeable_in_readonly r = changeable_in_readonly range_5_10)
   \<and> (\<exists>r. map_of (constraints (merge example_constraints example_other)) ''max_block_size'' = Some r
        \<and> changeable_in_readonly r = False)
   \<and> map_of (constraints (merge example_constraints example_other)) ''max_insert_threads'' = None"
proof -
  have refine: "\<not> doesSettingsConstraintsReplacePrevious (access_control example_constraints)"
    by (simp add: example_constraints_def example_access_def)
  note flag = merge_refine_changeable_in_readonly [OF refine, where other = example_other]
  have "map_of (constraints example_constraints) ''max_threads'' = Some range_5_10"
    by (simp add: example_constraints_def)
  with flag [where k = "''max_threads''"]
  have first: "\<exists>r. map_of (constraints (merge example_constraints example_other)) ''max_threads'' = Some r
        \<and> changeable_in_readonly r = changeable_in_readonly range_5_10"
    by blast
  have "map_of (constraints example_constraints) ''max_block_size'' = None
        \<and> ''max_block_size'' \<in> fst ` set (constraints example_other)"
    by (simp add: example_constraints_def example_other_def)
  with flag [where k = "''max_block_size''"]
  have second: "\<exists>r. map_of (constraints (merge example_constraints example_other)) ''max_block_size'' = Some r
        \<and> changeable_in_readonly r = False"
    by blast
  have "map_of (constraints example_constraints) ''max_insert_threads'' = None
        \<and> ''max_insert_threads'' \<notin> fst ` set (constraints example_other)"
    by (simp add: example_constraints_def example_other_def)
  with flag [where k = "''max_insert_threads''"]
  have third: "map_of (constraints (merge example_constraints example_other)) ''max_insert_threads'' = None"
    by blast
  from first second third show ?thesis by blast
qed

subsection \<open>checkImpl, check and clamp\<close>

text \<open>
  C6, as amended: for a change whose name is not \<open>profile\<close>, whose setting has a current
  value in the snapshot and whose proposed value equals that value, as given or after the
  cast, \<open>checkImpl\<close> returns false and leaves the change alone when clamping, for every
  constraint table, and \<open>clamp\<close> erases the entry. When throwing it does the same,
  provided the name passes the allow-list test, which comes first: no exception, and the
  filtering \<open>check\<close> erases the entry.
\<close>

theorem unchanged_value_is_noop:
  assumes "change_name c \<noteq> ''profile''"
    and "tryGet s (change_name c) = Some current_value"
    and "change_value c = current_value
         \<or> castValueUtil ext (change_name c) (change_value c) = Inr current_value"
  shows "checkImpl ext this s c CLAMP_ON_VIOLATION = Inr (False, c)
       \<and> clamp ext this s (xs @ c # ys) = clamp ext this s (xs @ ys)
       \<and> (isSettingNameAllowed (access_control this) (change_name c) \<longrightarrow>
            checkImpl ext this s c THROW_ON_VIOLATION = Inr (False, c)
          \<and> check_change ext this s c = Inr ()
          \<and> check ext this s (xs @ c # ys) = check ext this s (xs @ ys))"
proof -
  from assms have dropped: "checkImpl ext this s c CLAMP_ON_VIOLATION = Inr (False, c)"
    by (auto simp add: checkImpl_clamp split: sum.split)
  then have "not_checkImpl ext this s CLAMP_ON_VIOLATION c = Inr (True, c)"
    by (simp add: not_checkImpl_def)
  then have batch: "clamp ext this s (xs @ c # ys) = clamp ext this s (xs @ ys)"
    unfolding clamp_def by (rule remove_erase_if_erased)
  have throw: "checkImpl ext this s c THROW_ON_VIOLATION = Inr (False, c)
          \<and> check_change ext this s c = Inr ()
          \<and> check ext this s (xs @ c # ys) = check ext this s (xs @ ys)"
    if ok: "isSettingNameAllowed (access_control this) (change_name c)"
  proof -
    from assms ok have t: "checkImpl ext this s c THROW_ON_VIOLATION = Inr (False, c)"
      by (auto simp add: checkImpl_throw split: sum.split)
    then have "not_checkImpl ext this s THROW_ON_VIOLATION c = Inr (True, c)"
      by (simp add: not_checkImpl_def)
    then have "check ext this s (xs @ c # ys) = check ext this s (xs @ ys)"
      unfolding check_def by (rule remove_erase_if_erased)
    with t show ?thesis by (simp add: check_change_def)
  qed
  from dropped batch throw show ?thesis by blast
qed

theorem unchanged_value_is_noop_witness:
  "checkImpl example_ext example_constraints example_settings
      \<lparr>change_name = ''max_threads'', change_value = Int64 10\<rparr> CLAMP_ON_VIOLATION
     = Inr (False, \<lparr>change_name = ''max_threads'', change_value = Int64 10\<rparr>)
   \<and> clamp example_ext example_constraints example_settings
       ([\<lparr>change_name = ''max_threads'', change_value = UInt64 7\<rparr>]
        @ \<lparr>change_name = ''max_threads'', change_value = Int64 10\<rparr> # [])
     = clamp example_ext example_constraints example_settings
       ([\<lparr>change_name = ''max_threads'', change_value = UInt64 7\<rparr>] @ [])
   \<and> checkImpl example_ext example_constraints example_settings
      \<lparr>change_name = ''max_threads'', change_value = Int64 10\<rparr> THROW_ON_VIOLATION
     = Inr (False, \<lparr>change_name = ''max_threads'', change_value = Int64 10\<rparr>)
   \<and> check_change example_ext example_constraints example_settings
      \<lparr>change_name = ''max_threads'', change_value = Int64 10\<rparr> = Inr ()
   \<and> check example_ext example_constraints example_settings
       ([\<lparr>change_name = ''max_threads'', change_value = UInt64 7\<rparr>]
        @ \<lparr>change_name = ''max_threads'', change_value = Int64 10\<rparr> # [])
     = check example_ext example_constraints example_settings
       ([\<lparr>change_name = ''max_threads'', change_value = UInt64 7\<rparr>] @ [])"
proof -
  let ?c = "\<lparr>change_name = ''max_threads'', change_value = Int64 10\<rparr>"
  have name: "change_name ?c \<noteq> ''profile''" by simp
  have current: "tryGet example_settings (change_name ?c) = Some (UInt64 10)"
    by (simp add: example_settings_def)
  have same: "change_value ?c = UInt64 10
      \<or> castValueUtil example_ext (change_name ?c) (change_value ?c) = Inr (UInt64 10)"
    by (simp add: example_ext_def)
  have ok: "isSettingNameAllowed (access_control example_constraints) (change_name ?c)"
    by (simp add: example_constraints_def example_access_def)
  from unchanged_value_is_noop [OF name current same, where this = example_constraints
      and xs = "[\<lparr>change_name = ''max_threads'', change_value = UInt64 7\<rparr>]" and ys = "[]"] ok
  show ?thesis by blast
qed

text \<open>
  The claim C6 as written fails for the name \<open>profile\<close>: a change of \<open>profile\<close> to its
  current value is kept by \<open>checkImpl\<close>, \<open>clamp\<close> and \<open>check\<close>. It also fails when
  throwing for a name the allow-list refuses, where the exception comes before the
  comparison with the current value.
\<close>

theorem profile_noop_counterexample:
  "tryGet example_settings ''profile'' = Some (String ''default'')
   \<and> checkImpl example_ext example_constraints example_settings
        \<lparr>change_name = ''profile'', change_value = String ''default''\<rparr> CLAMP_ON_VIOLATION
      = Inr (True, \<lparr>change_name = ''profile'', change_value = String ''default''\<rparr>)
   \<and> clamp example_ext example_constraints example_settings
        [\<lparr>change_name = ''profile'', change_value = String ''default''\<rparr>]
      = Inr [\<lparr>change_name = ''profile'', change_value = String ''default''\<rparr>]
   \<and> check example_ext example_constraints example_settings
        [\<lparr>change_name = ''profile'', change_value = String ''default''\<rparr>]
      = Inr [\<lparr>change_name = ''profile'', change_value = String ''default''\<rparr>]
   \<and> tryGet (example_settings\<lparr>tryGet := (\<lambda>n. Some (UInt64 1))\<rparr>) ''custom_limit'' = Some (UInt64 1)
   \<and> checkImpl example_ext example_constraints
        (example_settings\<lparr>tryGet := (\<lambda>n. Some (UInt64 1))\<rparr>)
        \<lparr>change_name = ''custom_limit'', change_value = UInt64 1\<rparr> THROW_ON_VIOLATION
      = Inl (Exception ''Unknown setting custom_limit'' UNKNOWN_SETTING)"
  by (simp add: clamp_def check_def not_checkImpl_def checkImpl_defs example_defs)

text \<open>
  C3, as amended: \<open>clamp\<close> never raises. Its result is the list of the changes that
  \<open>checkImpl\<close> keeps, in order, and each change is dropped, kept as it is, or kept with
  its value rewritten to the violated boundary: to \<open>max_value\<close> when \<open>max_value\<close> orders
  below the cast value, and otherwise to \<open>min_value\<close> when the cast value orders below
  \<open>min_value\<close>. A change whose name is not \<open>profile\<close> is dropped, never rewritten, when
  its name is refused by the allow-list, when its value fails to cast, when the resolved
  range is forbidden or constant, or when its table entry is constant. A change named
  \<open>profile\<close> is always kept as it is.
\<close>

theorem clamp_never_raises:
  "clamp ext this s changes =
     Inr (List.map_filter (\<lambda>c. kept_change (checkImpl ext this s c CLAMP_ON_VIOLATION)) changes)
   \<and> (\<forall>c. checkImpl ext this s c CLAMP_ON_VIOLATION = Inr (False, c)
          \<or> checkImpl ext this s c CLAMP_ON_VIOLATION = Inr (True, c)
          \<or> (\<exists>nv. castValueUtil ext (change_name c) (change_value c) = Inr nv
                 \<and> \<not> isNull (min_value (getRange this s (change_name c)))
                 \<and> less_or_cannot_compare ext CLAMP_ON_VIOLATION
                      nv (min_value (getRange this s (change_name c))) = Inr True
                 \<and> checkImpl ext this s c CLAMP_ON_VIOLATION =
                      Inr (True, c\<lparr>change_value := min_value (getRange this s (change_name c))\<rparr>))
          \<or> (\<exists>nv. castValueUtil ext (change_name c) (change_value c) = Inr nv
                 \<and> \<not> isNull (max_value (getRange this s (change_name c)))
                 \<and> less_or_cannot_compare ext CLAMP_ON_VIOLATION
                      (max_value (getRange this s (change_name c))) nv = Inr True
                 \<and> checkImpl ext this s c CLAMP_ON_VIOLATION =
                      Inr (True, c\<lparr>change_value := max_value (getRange this s (change_name c))\<rparr>)))
   \<and> (\<forall>c nv. change_name c \<noteq> ''profile''
            \<and> isSettingNameAllowed (access_control this) (change_name c)
            \<and> castValueUtil ext (change_name c) (change_value c) = Inr nv \<longrightarrow>
          checkImpl ext this s c CLAMP_ON_VIOLATION =
            (if tryGet s (change_name c) = Some (change_value c)
                \<or> tryGet s (change_name c) = Some nv
                \<or> explain (getRange this s (change_name c)) \<noteq> []
                \<or> is_const (getRange this s (change_name c))
                \<or> (\<not> isNull (min_value (getRange this s (change_name c)))
                    \<and> \<not> isNull (max_value (getRange this s (change_name c)))
                    \<and> less_or_cannot_compare ext CLAMP_ON_VIOLATION
                         (max_value (getRange this s (change_name c)))
                         (min_value (getRange this s (change_name c))) = Inr True)
             then Inr (False, c)
             else Inr (True,
                    if \<not> isNull (max_value (getRange this s (change_name c)))
                       \<and> less_or_cannot_compare ext CLAMP_ON_VIOLATION
                            (max_value (getRange this s (change_name c))) nv = Inr True
                    then c\<lparr>change_value := max_value (getRange this s (change_name c))\<rparr>
                    else if \<not> isNull (min_value (getRange this s (change_name c)))
                       \<and> less_or_cannot_compare ext CLAMP_ON_VIOLATION
                            nv (min_value (getRange this s (change_name c))) = Inr True
                    then c\<lparr>change_value := min_value (getRange this s (change_name c))\<rparr>
                    else c)))
   \<and> (\<forall>c. change_name c \<noteq> ''profile''
            \<and> (\<not> isSettingNameAllowed (access_control this) (change_name c)
               \<or> (\<exists>e. castValueUtil ext (change_name c) (change_value c) = Inl e)
               \<or> explain (getRange this s (change_name c)) \<noteq> []
               \<or> is_const (getRange this s (change_name c))
               \<or> (\<exists>r. map_of (constraints this) (change_name c) = Some r \<and> is_const r)) \<longrightarrow>
          checkImpl ext this s c CLAMP_ON_VIOLATION = Inr (False, c)
          \<and> (\<forall>xs ys. clamp ext this s (xs @ c # ys) = clamp ext this s (xs @ ys)))
   \<and> (\<forall>c. change_name c = ''profile'' \<longrightarrow>
          checkImpl ext this s c CLAMP_ON_VIOLATION = Inr (True, c))"
  (is "?result \<and> ?outcomes \<and> ?exact \<and> ?dropped \<and> ?profile")
proof -
  have result: ?result by (rule clamp_map_filter)
  have outcomes: ?outcomes using checkImpl_clamp_tied [of ext this s] by blast
  have exact: ?exact
  proof (intro allI impI)
    fix c :: SettingChange and nv
    assume a: "change_name c \<noteq> ''profile''
            \<and> isSettingNameAllowed (access_control this) (change_name c)
            \<and> castValueUtil ext (change_name c) (change_value c) = Inr nv"
    then have name: "change_name c \<noteq> ''profile''"
      and ok: "isSettingNameAllowed (access_control this) (change_name c)"
      and cast: "castValueUtil ext (change_name c) (change_value c) = Inr nv"
      by simp_all
    from name ok cast show "checkImpl ext this s c CLAMP_ON_VIOLATION =
            (if tryGet s (change_name c) = Some (change_value c)
                \<or> tryGet s (change_name c) = Some nv
                \<or> explain (getRange this s (change_name c)) \<noteq> []
                \<or> is_const (getRange this s (change_name c))
                \<or> (\<not> isNull (min_value (getRange this s (change_name c)))
                    \<and> \<not> isNull (max_value (getRange this s (change_name c)))
                    \<and> less_or_cannot_compare ext CLAMP_ON_VIOLATION
                         (max_value (getRange this s (change_name c)))
                         (min_value (getRange this s (change_name c))) = Inr True)
             then Inr (False, c)
             else Inr (True,
                    if \<not> isNull (max_value (getRange this s (change_name c)))
                       \<and> less_or_cannot_compare ext CLAMP_ON_VIOLATION
                            (max_value (getRange this s (change_name c))) nv = Inr True
                    then c\<lparr>change_value := max_value (getRange this s (change_name c))\<rparr>
                    else if \<not> isNull (min_value (getRange this s (change_name c)))
                       \<and> less_or_cannot_compare ext CLAMP_ON_VIOLATION
                            nv (min_value (getRange this s (change_name c))) = Inr True
                    then c\<lparr>change_value := min_value (getRange this s (change_name c))\<rparr>
                    else c))"
      by (rule checkImpl_clamp_outcome)
  qed
  have dropped: ?dropped
  proof (intro allI impI)
    fix c :: SettingChange
    assume a: "change_name c \<noteq> ''profile''
            \<and> (\<not> isSettingNameAllowed (access_control this) (change_name c)
               \<or> (\<exists>e. castValueUtil ext (change_name c) (change_value c) = Inl e)
               \<or> explain (getRange this s (change_name c)) \<noteq> []
               \<or> is_const (getRange this s (change_name c))
               \<or> (\<exists>r. map_of (constraints this) (change_name c) = Some r \<and> is_const r))"
    have "explain (getRange this s (change_name c)) \<noteq> [] \<or> is_const (getRange this s (change_name c))"
      if "map_of (constraints this) (change_name c) = Some r" and "is_const r" for r
      using getRange_of_entry [OF that(1), of s] that(2) by auto
    with a have cond: "\<not> isSettingNameAllowed (access_control this) (change_name c)
         \<or> (\<exists>e. castValueUtil ext (change_name c) (change_value c) = Inl e)
         \<or> explain (getRange this s (change_name c)) \<noteq> []
         \<or> is_const (getRange this s (change_name c))"
      by blast
    from a have name: "change_name c \<noteq> ''profile''" by simp
    from name cond have no: "checkImpl ext this s c CLAMP_ON_VIOLATION = Inr (False, c)"
      by (rule checkImpl_clamp_dropped)
    then have "not_checkImpl ext this s CLAMP_ON_VIOLATION c = Inr (True, c)"
      by (simp add: not_checkImpl_def)
    then have "clamp ext this s (xs @ c # ys) = clamp ext this s (xs @ ys)" for xs ys
      unfolding clamp_def by (rule remove_erase_if_erased)
    with no show "checkImpl ext this s c CLAMP_ON_VIOLATION = Inr (False, c)
          \<and> (\<forall>xs ys. clamp ext this s (xs @ c # ys) = clamp ext this s (xs @ ys))"
      by blast
  qed
  have profile: ?profile by (simp add: checkImpl_profile)
  from result outcomes exact dropped profile show ?thesis by (intro conjI)
qed

theorem clamp_never_raises_witness:
  "clamp example_ext example_constraints example_settings
      [\<lparr>change_name = ''max_memory_usage'', change_value = UInt64 5\<rparr>,
       \<lparr>change_name = ''max_block_size'', change_value = UInt64 1\<rparr>,
       \<lparr>change_name = ''max_threads'', change_value = String ''many''\<rparr>]
     = Inr []
   \<and> checkImpl example_ext example_constraints example_settings
        \<lparr>change_name = ''profile'', change_value = String ''web''\<rparr> CLAMP_ON_VIOLATION
      = Inr (True, \<lparr>change_name = ''profile'', change_value = String ''web''\<rparr>)
   \<and> checkImpl example_ext example_constraints example_settings
        \<lparr>change_name = ''max_threads'', change_value = UInt64 20\<rparr> CLAMP_ON_VIOLATION
      = Inr (True, \<lparr>change_name = ''max_threads'', change_value = UInt64 10\<rparr>)
   \<and> checkImpl example_ext example_constraints example_settings
        \<lparr>change_name = ''max_threads'', change_value = UInt64 2\<rparr> CLAMP_ON_VIOLATION
      = Inr (True, \<lparr>change_name = ''max_threads'', change_value = UInt64 5\<rparr>)
   \<and> checkImpl example_ext example_constraints example_settings
        \<lparr>change_name = ''max_threads'', change_value = UInt64 7\<rparr> CLAMP_ON_VIOLATION
      = Inr (True, \<lparr>change_name = ''max_threads'', change_value = UInt64 7\<rparr>)
   \<and> clamp example_ext example_constraints example_settings
      [\<lparr>change_name = ''max_threads'', change_value = UInt64 20\<rparr>,
       \<lparr>change_name = ''max_threads'', change_value = UInt64 2\<rparr>,
       \<lparr>change_name = ''max_threads'', change_value = UInt64 10\<rparr>,
       \<lparr>change_name = ''max_threads'', change_value = UInt64 7\<rparr>]
     = Inr [\<lparr>change_name = ''max_threads'', change_value = UInt64 10\<rparr>,
            \<lparr>change_name = ''max_threads'', change_value = UInt64 5\<rparr>,
            \<lparr>change_name = ''max_threads'', change_value = UInt64 7\<rparr>]"
proof -
  let ?c1 = "\<lparr>change_name = ''max_memory_usage'', change_value = UInt64 5\<rparr>"
  let ?c2 = "\<lparr>change_name = ''max_block_size'', change_value = UInt64 1\<rparr>"
  let ?c3 = "\<lparr>change_name = ''max_threads'', change_value = String ''many''\<rparr>"
  let ?p = "\<lparr>change_name = ''profile'', change_value = String ''web''\<rparr>"
  let ?high = "\<lparr>change_name = ''max_threads'', change_value = UInt64 20\<rparr>"
  let ?low = "\<lparr>change_name = ''max_threads'', change_value = UInt64 2\<rparr>"
  let ?same = "\<lparr>change_name = ''max_threads'', change_value = UInt64 10\<rparr>"
  let ?ok = "\<lparr>change_name = ''max_threads'', change_value = UInt64 7\<rparr>"
  note facts = clamp_never_raises [where ext = example_ext and this = example_constraints
      and s = example_settings]
  note dropped = facts [THEN conjunct2, THEN conjunct2, THEN conjunct2, THEN conjunct1, rule_format]
  note exact = facts [THEN conjunct2, THEN conjunct2, THEN conjunct1, rule_format]
  have "change_name ?c1 \<noteq> ''profile''
      \<and> (\<not> isSettingNameAllowed (access_control example_constraints) (change_name ?c1)
         \<or> (\<exists>e. castValueUtil example_ext (change_name ?c1) (change_value ?c1) = Inl e)
         \<or> explain (getRange example_constraints example_settings (change_name ?c1)) \<noteq> []
         \<or> is_const (getRange example_constraints example_settings (change_name ?c1))
         \<or> (\<exists>r. map_of (constraints example_constraints) (change_name ?c1) = Some r \<and> is_const r))"
    by (simp add: example_constraints_def)
  from dropped [OF this]
  have d1: "\<And>xs ys. clamp example_ext example_constraints example_settings (xs @ ?c1 # ys)
              = clamp example_ext example_constraints example_settings (xs @ ys)"
    by blast
  have "change_name ?c2 \<noteq> ''profile''
      \<and> (\<not> isSettingNameAllowed (access_control example_constraints) (change_name ?c2)
         \<or> (\<exists>e. castValueUtil example_ext (change_name ?c2) (change_value ?c2) = Inl e)
         \<or> explain (getRange example_constraints example_settings (change_name ?c2)) \<noteq> []
         \<or> is_const (getRange example_constraints example_settings (change_name ?c2))
         \<or> (\<exists>r. map_of (constraints example_constraints) (change_name ?c2) = Some r \<and> is_const r))"
    by (simp add: example_constraints_def example_access_def)
  from dropped [OF this]
  have d2: "\<And>xs ys. clamp example_ext example_constraints example_settings (xs @ ?c2 # ys)
              = clamp example_ext example_constraints example_settings (xs @ ys)"
    by blast
  have "change_name ?c3 \<noteq> ''profile''
      \<and> (\<not> isSettingNameAllowed (access_control example_constraints) (change_name ?c3)
         \<or> (\<exists>e. castValueUtil example_ext (change_name ?c3) (change_value ?c3) = Inl e)
         \<or> explain (getRange example_constraints example_settings (change_name ?c3)) \<noteq> []
         \<or> is_const (getRange example_constraints example_settings (change_name ?c3))
         \<or> (\<exists>r. map_of (constraints example_constraints) (change_name ?c3) = Some r \<and> is_const r))"
    by (simp add: example_ext_def)
  from dropped [OF this]
  have d3: "\<And>xs ys. clamp example_ext example_constraints example_settings (xs @ ?c3 # ys)
              = clamp example_ext example_constraints example_settings (xs @ ys)"
    by blast
  have "clamp example_ext example_constraints example_settings [?c1, ?c2, ?c3]
          = clamp example_ext example_constraints example_settings []"
    using d1 [of "[]" "[?c2, ?c3]"] d2 [of "[]" "[?c3]"] d3 [of "[]" "[]"] by simp
  also have "\<dots> = Inr []"
    using clamp_never_raises [where ext = example_ext and this = example_constraints
        and s = example_settings and changes = "[]", THEN conjunct1]
    by simp
  finally have first: "clamp example_ext example_constraints example_settings [?c1, ?c2, ?c3] = Inr []" .
  have second: "checkImpl example_ext example_constraints example_settings ?p CLAMP_ON_VIOLATION
      = Inr (True, ?p)"
    using facts [THEN conjunct2, THEN conjunct2, THEN conjunct2, THEN conjunct2, rule_format, of ?p]
    by simp
  have range: "getRange example_constraints example_settings ''max_threads'' = range_5_10"
    by (simp add: getRange_def example_constraints_def example_settings_def)
  have pre: "change_name \<lparr>change_name = ''max_threads'', change_value = UInt64 n\<rparr> \<noteq> ''profile''
      \<and> isSettingNameAllowed (access_control example_constraints)
           (change_name \<lparr>change_name = ''max_threads'', change_value = UInt64 n\<rparr>)
      \<and> castValueUtil example_ext
           (change_name \<lparr>change_name = ''max_threads'', change_value = UInt64 n\<rparr>)
           (change_value \<lparr>change_name = ''max_threads'', change_value = UInt64 n\<rparr>) = Inr (UInt64 n)"
    for n
    by (simp add: example_constraints_def example_access_def example_ext_def)
  have cur: "tryGet example_settings ''max_threads'' = Some (UInt64 10)"
    by (simp add: example_settings_def)
  have lt: "less_or_cannot_compare example_ext CLAMP_ON_VIOLATION (UInt64 a) (UInt64 b) = Inr (a < b)"
    for a b
    by (simp add: less_or_cannot_compare_clamp example_ext_def)
  have high: "checkImpl example_ext example_constraints example_settings ?high CLAMP_ON_VIOLATION
      = Inr (True, ?same)"
    using exact [OF pre [of 20]]
    by (simp add: range cur lt range_5_10_def Range_default_def isNull_def)
  have low: "checkImpl example_ext example_constraints example_settings ?low CLAMP_ON_VIOLATION
      = Inr (True, \<lparr>change_name = ''max_threads'', change_value = UInt64 5\<rparr>)"
    using exact [OF pre [of 2]]
    by (simp add: range cur lt range_5_10_def Range_default_def isNull_def)
  have ok: "checkImpl example_ext example_constraints example_settings ?ok CLAMP_ON_VIOLATION
      = Inr (True, ?ok)"
    using exact [OF pre [of 7]]
    by (simp add: range cur lt range_5_10_def Range_default_def isNull_def)
  have same: "checkImpl example_ext example_constraints example_settings ?same CLAMP_ON_VIOLATION
      = Inr (False, ?same)"
    using exact [OF pre [of 10]]
    by (simp add: cur)
  have list: "clamp example_ext example_constraints example_settings [?high, ?low, ?same, ?ok]
     = Inr [?same, \<lparr>change_name = ''max_threads'', change_value = UInt64 5\<rparr>, ?ok]"
    using clamp_never_raises [where ext = example_ext and this = example_constraints
        and s = example_settings and changes = "[?high, ?low, ?same, ?ok]", THEN conjunct1]
    by (simp add: List.map_filter_simps high low same ok)
  from first second high low ok list show ?thesis by blast
qed

text \<open>
  The claim C3 as written fails for the name \<open>profile\<close>: with a constant entry for
  \<open>profile\<close> in the table and a value that fails to cast, \<open>clamp\<close> keeps the change, and
  it keeps it as well at readonly level 1, where the resolved range is forbidden.
\<close>

theorem clamp_keeps_profile_counterexample:
  "map_of (constraints example_constraints) ''profile'' = Some (Range_default\<lparr>is_const := True\<rparr>)
   \<and> is_const (getRange example_constraints example_settings ''profile'')
   \<and> castValueUtil example_ext ''profile'' (String ''web'')
       = Inl (Exception ''Cannot convert'' (OTHER_ERROR_CODE 2))
   \<and> clamp example_ext example_constraints example_settings
        [\<lparr>change_name = ''profile'', change_value = String ''web''\<rparr>]
      = Inr [\<lparr>change_name = ''profile'', change_value = String ''web''\<rparr>]
   \<and> explain (getRange example_constraints (example_settings\<lparr>readonly := 1\<rparr>) ''profile'') \<noteq> []
   \<and> clamp example_ext example_constraints (example_settings\<lparr>readonly := 1\<rparr>)
        [\<lparr>change_name = ''profile'', change_value = String ''web''\<rparr>]
      = Inr [\<lparr>change_name = ''profile'', change_value = String ''web''\<rparr>]"
  by (simp add: clamp_def not_checkImpl_def checkImpl_defs example_defs)




text \<open>
  C9, as amended: the filtering \<open>check\<close>, run on a list it has returned, returns the same
  list. \<open>clamp\<close>, run on a list it has returned, returns the same list provided every
  value that the first run rewrote differs from the current value of its setting and is
  left unchanged by the cast.
\<close>

theorem check_and_clamp_rerun:
  "(check ext this s changes = Inr ys \<longrightarrow> check ext this s ys = Inr ys)
   \<and> (clamp ext this s changes = Inr ys
       \<and> (\<forall>c \<in> set changes. \<forall>c'.
             checkImpl ext this s c CLAMP_ON_VIOLATION = Inr (True, c') \<and> c' \<noteq> c \<longrightarrow>
               tryGet s (change_name c) \<noteq> Some (change_value c')
             \<and> castValueUtil ext (change_name c) (change_value c') = Inr (change_value c'))
       \<longrightarrow> clamp ext this s ys = Inr ys)"
proof (intro conjI impI)
  assume "check ext this s changes = Inr ys"
  then show "check ext this s ys = Inr ys" by (rule check_accepted_again)
next
  assume a: "clamp ext this s changes = Inr ys
       \<and> (\<forall>c \<in> set changes. \<forall>c'.
             checkImpl ext this s c CLAMP_ON_VIOLATION = Inr (True, c') \<and> c' \<noteq> c \<longrightarrow>
               tryGet s (change_name c) \<noteq> Some (change_value c')
             \<and> castValueUtil ext (change_name c) (change_value c') = Inr (change_value c'))"
  have "\<forall>y \<in> set ys. checkImpl ext this s y CLAMP_ON_VIOLATION = Inr (True, y)"
  proof
    fix y assume "y \<in> set ys"
    with a obtain c where c: "c \<in> set changes"
      and kept: "checkImpl ext this s c CLAMP_ON_VIOLATION = Inr (True, y)"
      by (auto simp add: clamp_map_filter set_map_filter kept_change_Some)
    from a c kept have "y \<noteq> c \<longrightarrow>
           tryGet s (change_name c) \<noteq> Some (change_value y)
         \<and> castValueUtil ext (change_name c) (change_value y) = Inr (change_value y)"
      by blast
    with kept show "checkImpl ext this s y CLAMP_ON_VIOLATION = Inr (True, y)"
      by (rule checkImpl_clamp_stable)
  qed
  then show "clamp ext this s ys = Inr ys" by (rule clamp_fixed)
qed

theorem check_and_clamp_rerun_witness:
  "check example_ext example_constraints example_settings
      [\<lparr>change_name = ''max_threads'', change_value = UInt64 7\<rparr>] =
     Inr [\<lparr>change_name = ''max_threads'', change_value = UInt64 7\<rparr>]
   \<and> clamp example_ext example_constraints example_settings
      [\<lparr>change_name = ''max_threads'', change_value = UInt64 5\<rparr>,
       \<lparr>change_name = ''max_threads'', change_value = UInt64 7\<rparr>] =
     Inr [\<lparr>change_name = ''max_threads'', change_value = UInt64 5\<rparr>,
          \<lparr>change_name = ''max_threads'', change_value = UInt64 7\<rparr>]"
proof -
  let ?low = "\<lparr>change_name = ''max_threads'', change_value = UInt64 2\<rparr>"
  let ?min = "\<lparr>change_name = ''max_threads'', change_value = UInt64 5\<rparr>"
  let ?ok = "\<lparr>change_name = ''max_threads'', change_value = UInt64 7\<rparr>"
  let ?same = "\<lparr>change_name = ''max_threads'', change_value = UInt64 10\<rparr>"
  note facts = check_and_clamp_rerun [where ext = example_ext and this = example_constraints
      and s = example_settings]
  have "check example_ext example_constraints example_settings [?ok, ?same] = Inr [?ok]"
    by (simp add: check_def not_checkImpl_def checkImpl_defs example_defs)
  with facts [where changes = "[?ok, ?same]" and ys = "[?ok]"]
  have first: "check example_ext example_constraints example_settings [?ok] = Inr [?ok]"
    by blast
  have low: "checkImpl example_ext example_constraints example_settings ?low CLAMP_ON_VIOLATION
      = Inr (True, ?min)"
    by (simp add: checkImpl_defs example_defs)
  have ok: "checkImpl example_ext example_constraints example_settings ?ok CLAMP_ON_VIOLATION
      = Inr (True, ?ok)"
    by (simp add: checkImpl_defs example_defs)
  have run: "clamp example_ext example_constraints example_settings [?low, ?ok] = Inr [?min, ?ok]"
    by (simp add: clamp_def not_checkImpl_def low ok)
  have side: "\<forall>c \<in> set [?low, ?ok]. \<forall>c'.
      checkImpl example_ext example_constraints example_settings c CLAMP_ON_VIOLATION = Inr (True, c')
        \<and> c' \<noteq> c \<longrightarrow>
          tryGet example_settings (change_name c) \<noteq> Some (change_value c')
        \<and> castValueUtil example_ext (change_name c) (change_value c') = Inr (change_value c')"
  proof (intro ballI allI impI)
    fix c c'
    assume c: "c \<in> set [?low, ?ok]"
      and kept: "checkImpl example_ext example_constraints example_settings c CLAMP_ON_VIOLATION
                   = Inr (True, c') \<and> c' \<noteq> c"
    from c consider "c = ?low" | "c = ?ok" by auto
    then show "tryGet example_settings (change_name c) \<noteq> Some (change_value c')
        \<and> castValueUtil example_ext (change_name c) (change_value c') = Inr (change_value c')"
    proof cases
      case 1
      with kept low have "c' = ?min" by simp
      with 1 show ?thesis by (simp add: example_settings_def example_ext_def)
    next
      case 2
      with kept ok have False by auto
      then show ?thesis ..
    qed
  qed
  from facts [where changes = "[?low, ?ok]" and ys = "[?min, ?ok]"] run side
  have second: "clamp example_ext example_constraints example_settings [?min, ?ok] = Inr [?min, ?ok]"
    by blast
  from first second show ?thesis by blast
qed

text \<open>
  The claim C9 as written fails for \<open>clamp\<close>: with the maximum 10 and the current value
  10, the value 20 is rewritten to 10 by a first run, and a second run drops the entry
  because its value now equals the current value.
\<close>

theorem clamp_rerun_counterexample:
  "clamp example_ext example_constraints example_settings
        [\<lparr>change_name = ''max_threads'', change_value = UInt64 20\<rparr>]
      = Inr [\<lparr>change_name = ''max_threads'', change_value = UInt64 10\<rparr>]
   \<and> clamp example_ext example_constraints example_settings
        [\<lparr>change_name = ''max_threads'', change_value = UInt64 10\<rparr>]
      = Inr []"
  by (simp add: clamp_def not_checkImpl_def checkImpl_defs example_defs)

end
